theory Spec2Isabelle
  imports Complex_Main "HOL-Library.Word" "HOL-Library.Log_Nat"
begin

section \<open>Values, documents and the runtime\<close>

text \<open>
  A JavaScript string is a sequence of UTF-16 code units; \<open>slice\<close> and \<open>length\<close> count
  code units. Property names are only ever compared for equality, so they are kept as
  byte strings.
\<close>

type_synonym jstring = "16 word list"

definition ascii :: "string \<Rightarrow> jstring" where
  "ascii s = map of_char s"

text \<open>
  The values a request body, a query string or a stored document can hold. A number read
  from JSON is a finite double, hence a rational; \<open>JDate\<close> carries a time value in
  milliseconds since the epoch; \<open>JOid\<close> is the store's 12-byte object identifier.
\<close>

datatype jsval =
    JUndefined
  | JNull
  | JBool bool
  | JNum rat
  | JStr jstring
  | JDate int
  | JOid "96 word"
  | JArr "jsval list"
  | JObj "(string \<times> jsval) list"

text \<open>
  A document, a JSON object of a request (its body, or its query string) and an object
  built by a handler: the properties in order. A request without a body has the empty one.
\<close>

type_synonym doc = "(string \<times> jsval) list"

text \<open>Reading a property: an absent property reads as \<open>undefined\<close>.\<close>

definition get :: "doc \<Rightarrow> string \<Rightarrow> jsval" where
  "get d k = (case map_of d k of None \<Rightarrow> JUndefined | Some v \<Rightarrow> v)"

text \<open>
  \<open>v.k\<close> and \<open>v?.k\<close> on a value that came from JSON: only an object has own properties
  of the names used here; every other value reads as \<open>undefined\<close>.
\<close>

fun getField :: "jsval \<Rightarrow> string \<Rightarrow> jsval" where
  "getField (JObj d) k = get d k"
| "getField _ k = JUndefined"

text \<open>
  Writing a property (\<open>{...d, k: v}\<close> or \<open>$set\<close>): an existing property keeps its place,
  a new one goes to the end.
\<close>

fun put :: "string \<Rightarrow> jsval \<Rightarrow> doc \<Rightarrow> doc" where
  "put k v [] = [(k, v)]"
| "put k v (p # ps) = (if fst p = k then (k, v) # ps else p # put k v ps)"

text \<open>The properties copied by an object spread \<open>{...v}\<close> of a value that has some.\<close>

fun spread :: "jsval \<Rightarrow> doc" where
  "spread (JObj d) = d"
| "spread _ = []"

text \<open>JavaScript truthiness, as used by \<open>!x\<close>, \<open>x ? a : b\<close>, \<open>x || y\<close> and \<open>if (x)\<close>.\<close>

fun truthy :: "jsval \<Rightarrow> bool" where
  "truthy JUndefined = False"
| "truthy JNull = False"
| "truthy (JBool b) = b"
| "truthy (JNum r) = (r \<noteq> 0)"
| "truthy (JStr s) = (s \<noteq> [])"
| "truthy _ = True"

text \<open>
  What reaches the client and the store: \<open>res.json\<close> leaves out a property whose value is
  \<open>undefined\<close>, the store's driver writes it as \<open>null\<close>. Values nested below the top level
  come from JSON or from the store and hold no \<open>undefined\<close>.
\<close>

definition json_doc :: "doc \<Rightarrow> doc" where
  "json_doc d = filter (\<lambda>p. snd p \<noteq> JUndefined) d"

definition bson :: "jsval \<Rightarrow> jsval" where
  "bson v = (if v = JUndefined then JNull else v)"

definition bson_doc :: "doc \<Rightarrow> doc" where
  "bson_doc d = map (\<lambda>p. (fst p, bson (snd p))) d"

datatype error = TypeError | DuplicateKey | BadValue

text \<open>
  The parts of the platform the handlers call and the repository does not define:
  \<open>Date.parse\<close> (\<open>None\<close> is \<open>NaN\<close>); the string an object or array converts to (\<open>None\<close>:
  the conversion throws a \<open>TypeError\<close>, as it does for an object whose own \<open>toString\<close>
  property is not a function); the local time zone adjustment of the server
  (\<open>LocalTZA(t, isUTC)\<close> of the language standard); the \<open>ObjectId\<close> constructor (\<open>None\<close>:
  it throws); \<open>toLocaleDateString\<close>; the \<open>message\<close> of a thrown error; and the store's
  reading of an operator document in a filter, as a condition on the value of the field
  (\<open>JUndefined\<close> for a missing field; \<open>None\<close>: the store refuses the document, as it does
  for an operator it does not know).
\<close>

record env =
  parseDate :: "jstring \<Rightarrow> int option"
  toPrimitive :: "jsval \<Rightarrow> jstring option"
  localTZA :: "int \<Rightarrow> bool \<Rightarrow> int"
  objectId :: "jstring \<Rightarrow> 96 word option"
  formatDate :: "int option \<Rightarrow> jstring"
  errorMessage :: "error \<Rightarrow> jstring"
  operator :: "doc \<Rightarrow> (jsval \<Rightarrow> bool) option"

text \<open>
  What a handler does with a request: it sends a status and a JSON body, or (a rejected
  promise outside any \<open>try\<close>) it sends nothing.
\<close>

datatype reply = Reply (status: nat) (body: jsval) | Unhandled

subsection \<open>Card masking (\<open>maskCardNumber\<close>)\<close>

definition mask_prefix :: jstring where
  "mask_prefix =
     [0x2022, 0x2022, 0x2022, 0x2022, 0x20, 0x2022, 0x2022, 0x2022, 0x2022, 0x20,
      0x2022, 0x2022, 0x2022, 0x2022, 0x20]"

text \<open>\<open>x.slice(-4)\<close>: the start is \<open>max (length + (-4)) 0\<close>, the end is the length.\<close>

definition slice_last4 :: "'a list \<Rightarrow> 'a list" where
  "slice_last4 xs = (let n = int (length xs); k = max (n + (- 4)) 0 in drop (nat k) xs)"

text \<open>
  \<open>cardNumber.slice(-4)\<close> exists on strings and arrays; on any other value the call
  throws a \<open>TypeError\<close>. The template literal converts an array slice to a string, which
  can throw as well.
\<close>

fun maskCardNumber :: "env \<Rightarrow> jsval \<Rightarrow> error + jstring" where
  "maskCardNumber e (JStr s) = Inr (mask_prefix @ slice_last4 s)"
| "maskCardNumber e (JArr xs) =
     (case toPrimitive e (JArr (slice_last4 xs)) of
        None \<Rightarrow> Inl TypeError
      | Some s \<Rightarrow> Inr (mask_prefix @ s))"
| "maskCardNumber e _ = Inl TypeError"

subsection \<open>Dates\<close>

definition msPerDay :: int where
  "msPerDay = 86400000"

text \<open>A time value beyond 8.64e15 ms from the epoch is an invalid date (\<open>NaN\<close>, \<open>None\<close>).\<close>

definition TimeClip :: "int \<Rightarrow> int option" where
  "TimeClip t = (if \<bar>t\<bar> > 8640000000000000 then None else Some t)"

definition truncate :: "rat \<Rightarrow> int" where
  "truncate r = (if r < 0 then \<lceil>r\<rceil> else \<lfloor>r\<rfloor>)"

text \<open>
  \<open>new Date(v)\<close> with one argument: a date is copied, a string is parsed, any other
  primitive is converted to a number (\<open>undefined\<close> to \<open>NaN\<close>, \<open>null\<close> to 0), an object or
  array is converted to a string first. That conversion can throw a \<open>TypeError\<close>, and the
  constructor throws with it.
\<close>

fun new_Date :: "env \<Rightarrow> jsval \<Rightarrow> error + int option" where
  "new_Date e JUndefined = Inr None"
| "new_Date e JNull = Inr (Some 0)"
| "new_Date e (JBool b) = Inr (Some (if b then 1 else 0))"
| "new_Date e (JNum r) = Inr (TimeClip (truncate r))"
| "new_Date e (JStr s) = Inr (Option.bind (parseDate e s) TimeClip)"
| "new_Date e (JDate t) = Inr (TimeClip t)"
| "new_Date e v =
     (case toPrimitive e v of
        None \<Rightarrow> Inl TypeError
      | Some s \<Rightarrow> Inr (Option.bind (parseDate e s) TimeClip))"

definition LocalTime :: "env \<Rightarrow> int \<Rightarrow> int" where
  "LocalTime e t = t + localTZA e t True"

definition UTC :: "env \<Rightarrow> int \<Rightarrow> int" where
  "UTC e t = t - localTZA e t False"

definition Day :: "int \<Rightarrow> int" where
  "Day t = t div msPerDay"

definition TimeWithinDay :: "int \<Rightarrow> int" where
  "TimeWithinDay t = t mod msPerDay"

definition MakeDate :: "int \<Rightarrow> int \<Rightarrow> int" where
  "MakeDate day time = day * msPerDay + time"

text \<open>
  \<open>d.setDate(d.getDate() - n)\<close>: the date is read in local time, the day of the month is
  moved back by \<open>n\<close> (the day number of the same year and month with that day of the
  month is \<open>n\<close> less), the time within the day is kept, and the result is converted back
  and clipped. An invalid date stays invalid.
\<close>

definition setDate_back :: "env \<Rightarrow> int \<Rightarrow> int option \<Rightarrow> int option" where
  "setDate_back e n d =
     (case d of
        None \<Rightarrow> None
      | Some t \<Rightarrow>
          (let lt = LocalTime e t
           in TimeClip (UTC e (MakeDate (Day lt - n) (TimeWithinDay lt)))))"

text \<open>\<open>now < deadline\<close> on two dates: a comparison with \<open>NaN\<close> is false.\<close>

definition date_less :: "int \<Rightarrow> int option \<Rightarrow> bool" where
  "date_less t d = (case d of None \<Rightarrow> False | Some u \<Rightarrow> t < u)"

text \<open>\<open>formatDisplayDate\<close>\<close>

definition formatDisplayDate :: "env \<Rightarrow> jsval \<Rightarrow> error + jsval" where
  "formatDisplayDate e date =
     (case new_Date e date of
        Inl x \<Rightarrow> Inl x
      | Inr d \<Rightarrow> Inr (JStr (formatDate e d)))"

subsection \<open>The document store\<close>

text \<open>
  A collection is the list of its documents in insertion order. The store is taken to be
  reachable: its operations fail only as written below.

  \<open>{k: q}\<close> in a filter, for a query value \<open>q\<close> that is not an operator document: the field
  equals the query value, or is an array that holds it; \<open>null\<close> also matches a missing
  field.
\<close>

definition eq_match :: "jsval \<Rightarrow> jsval \<Rightarrow> bool" where
  "eq_match q v =
     (if v = JUndefined then q = JNull
      else v = q \<or> (case v of JArr xs \<Rightarrow> q \<in> set xs | _ \<Rightarrow> False))"

text \<open>
  A query value that is an object whose first property name begins with \<open>$\<close> is an
  operator document (\<open>{$ne: ...}\<close>, \<open>{$gt: ...}\<close>): the store does not compare it with the
  field but interprets it, or refuses it.
\<close>

fun is_operator :: "jsval \<Rightarrow> bool" where
  "is_operator (JObj ((k, v) # ps)) = (case k of [] \<Rightarrow> False | c # cs \<Rightarrow> c = CHR ''$'')"
| "is_operator _ = False"

text \<open>
  \<open>{k: {$gte: date}}\<close> and \<open>{k: {$lte: date}}\<close>, as the administrative query builds them:
  the store compares a date only with values of the date type (or with the dates in an
  array).
\<close>

definition date_match :: "(int \<Rightarrow> bool) \<Rightarrow> jsval \<Rightarrow> bool" where
  "date_match p v =
     (case v of
        JDate t \<Rightarrow> p t
      | JArr xs \<Rightarrow> list_ex (\<lambda>x. case x of JDate t \<Rightarrow> p t | _ \<Rightarrow> False) xs
      | _ \<Rightarrow> False)"

datatype cond = Eq string jsval | Gte string int | Lte string int

text \<open>Whether the store accepts an entry of a filter, and whether a document meets it.\<close>

fun accepted :: "env \<Rightarrow> cond \<Rightarrow> bool" where
  "accepted e (Eq k q) = (if is_operator q then operator e (spread q) \<noteq> None else True)"
| "accepted e (Gte k b) = True"
| "accepted e (Lte k b) = True"

fun holds :: "env \<Rightarrow> cond \<Rightarrow> doc \<Rightarrow> bool" where
  "holds e (Eq k q) d =
     (if is_operator q
      then (case operator e (spread q) of None \<Rightarrow> False | Some p \<Rightarrow> p (get d k))
      else eq_match q (get d k))"
| "holds e (Gte k b) d = date_match (\<lambda>t. b \<le> t) (get d k)"
| "holds e (Lte k b) d = date_match (\<lambda>t. t \<le> b) (get d k)"

definition matches :: "env \<Rightarrow> cond list \<Rightarrow> doc \<Rightarrow> bool" where
  "matches e q d = list_all (\<lambda>c. holds e c d) q"

text \<open>\<open>findOne\<close> and \<open>find(...).toArray()\<close>: a refused filter is an error thrown to the caller.\<close>

definition findOne :: "env \<Rightarrow> cond list \<Rightarrow> doc list \<Rightarrow> error + doc option" where
  "findOne e q coll =
     (if list_all (accepted e) q then Inr (find (matches e q) coll) else Inl BadValue)"

definition find_all :: "env \<Rightarrow> cond list \<Rightarrow> doc list \<Rightarrow> error + doc list" where
  "find_all e q coll =
     (if list_all (accepted e) q then Inr (filter (matches e q) coll) else Inl BadValue)"

text \<open>
  \<open>insertOne\<close>: the driver gives a document without \<open>_id\<close> (absent or \<open>null\<close>) the fresh
  identifier, writing it into the caller's object; the store refuses an \<open>_id\<close> it already
  holds. The result is the inserted identifier, the caller's object and the collection.
\<close>

definition insertOne :: "96 word \<Rightarrow> doc \<Rightarrow> doc list \<Rightarrow> error + (jsval \<times> doc \<times> doc list)" where
  "insertOne newId d coll =
     (let d' = (if get d ''_id'' = JUndefined \<or> get d ''_id'' = JNull
                then put ''_id'' (JOid newId) d else d);
          i = get d' ''_id''
      in if list_ex (\<lambda>x. get x ''_id'' = i) coll then Inl DuplicateKey
         else Inr (i, d', coll @ [bson_doc d']))"

text \<open>\<open>$set\<close>: each field of the update is written into the document, in order.\<close>

definition assign :: "doc \<Rightarrow> doc \<Rightarrow> doc" where
  "assign d upd = foldl (\<lambda>acc p. put (fst p) (snd p) acc) d upd"

text \<open>
  \<open>updateOne(filter, {$set: upd})\<close> changes the first document that matches; the count it
  reports is 1 when that document differs afterwards, 0 when there is none or it is the
  same. A refused filter is an error, and nothing is written.
\<close>

fun update_first :: "(doc \<Rightarrow> bool) \<Rightarrow> doc \<Rightarrow> doc list \<Rightarrow> nat \<times> doc list" where
  "update_first p upd [] = (0, [])"
| "update_first p upd (d # ds) =
     (if p d
      then (let d' = assign d (bson_doc upd) in (if d' = d then 0 else 1, d' # ds))
      else (let r = update_first p upd ds in (fst r, d # snd r)))"

definition updateOne :: "env \<Rightarrow> cond list \<Rightarrow> doc \<Rightarrow> doc list \<Rightarrow> error + nat \<times> doc list" where
  "updateOne e q upd coll =
     (if list_all (accepted e) q then Inr (update_first (matches e q) upd coll)
      else Inl BadValue)"

text \<open>
  \<open>.sort({createdAt: -1})\<close>: dates sort above every other value a JSON payload can
  hold, so descending order lists the dated documents first, latest first. Documents that
  compare equal, and those without a date, are kept in collection order.
\<close>

definition createdAt :: "doc \<Rightarrow> int option" where
  "createdAt d = (case get d ''createdAt'' of JDate t \<Rightarrow> Some t | _ \<Rightarrow> None)"

fun not_after :: "int option \<Rightarrow> int option \<Rightarrow> bool" where
  "not_after None None = True"
| "not_after None (Some b) = True"
| "not_after (Some a) None = False"
| "not_after (Some a) (Some b) = (a \<le> b)"

fun insert_desc :: "doc \<Rightarrow> doc list \<Rightarrow> doc list" where
  "insert_desc d [] = [d]"
| "insert_desc d (x # xs) =
     (if not_after (createdAt x) (createdAt d) then d # x # xs else x # insert_desc d xs)"

definition sort_desc :: "doc list \<Rightarrow> doc list" where
  "sort_desc ds = foldr insert_desc ds []"

text \<open>\<open>.project({k: 0})\<close>\<close>

definition project_out :: "string \<Rightarrow> doc \<Rightarrow> doc" where
  "project_out k d = filter (\<lambda>p. fst p \<noteq> k) d"

subsection \<open>Users: \<open>index.js\<close>\<close>

definition err :: "string \<Rightarrow> jsval" where
  "err m = JObj [(''error'', JStr (ascii m))]"

text \<open>
  \<open>POST /users\<close>. The handler has no \<open>try\<close>: an error of the store leaves the request
  unanswered.
\<close>

definition post_users ::
  "env \<Rightarrow> int \<Rightarrow> 96 word \<Rightarrow> doc \<Rightarrow> doc list \<Rightarrow> reply \<times> doc list" where
  "post_users e now newId reqBody Users =
     (let name = get reqBody ''name'';
          email = get reqBody ''email'';
          photoURL = get reqBody ''photoURL''
      in if \<not> truthy name \<or> \<not> truthy email
         then (Reply 400 (err ''Name and email are required''), Users)
         else
           (case findOne e [Eq ''email'' (bson email)] Users of
              Inl x \<Rightarrow> (Unhandled, Users)
            | Inr (Some existing) \<Rightarrow> (Reply 409 (err ''User already exists''), Users)
            | Inr None \<Rightarrow>
                (let user = [(''name'', name), (''email'', email), (''photoURL'', photoURL),
                             (''isAdmin'', JBool False), (''createdAt'', JDate now)]
                 in case insertOne newId user Users of
                      Inl x \<Rightarrow> (Unhandled, Users)
                    | Inr (insertedId, user', Users') \<Rightarrow>
                        (Reply 201
                           (JObj [(''message'', JStr (ascii ''User created'')),
                                  (''data'',
                                   JObj (json_doc (assign [(''_id'', insertedId)] user')))]),
                         Users'))))"


subsection \<open>Users: the earlier server (\<open>part_000\<close>)\<close>

text \<open>\<open>POST /users\<close>\<close>

definition post_users_v1 :: "env \<Rightarrow> 96 word \<Rightarrow> doc \<Rightarrow> doc list \<Rightarrow> reply \<times> doc list" where
  "post_users_v1 e newId reqBody usersCollection =
     (let name = get reqBody ''name'';
          email = get reqBody ''email''
      in if \<not> truthy name \<or> \<not> truthy email
         then (Reply 400 (JStr (ascii ''Name and email are required'')), usersCollection)
         else
           (case findOne e [Eq ''email'' (bson email)] usersCollection of
              Inl x \<Rightarrow> (Reply 500 (JStr (ascii ''Internal Server Error'')), usersCollection)
            | Inr (Some existingUser) \<Rightarrow>
                (Reply 409 (JStr (ascii ''User with this email already exists'')),
                 usersCollection)
            | Inr None \<Rightarrow>
                (case insertOne newId reqBody usersCollection of
                   Inl x \<Rightarrow> (Reply 500 (JStr (ascii ''Internal Server Error'')), usersCollection)
                 | Inr (insertedId, d, coll) \<Rightarrow>
                     (Reply 201
                        (JObj [(''message'', JStr (ascii ''User successfully added'')),
                               (''userId'', insertedId)]),
                      coll))))"




subsection \<open>Double arithmetic\<close>

text \<open>
  A JavaScript number is an IEEE 754 double, and each arithmetic operation returns the
  exact result rounded to the nearest double, ties to the even significand. For a
  non-zero rational \<open>x\<close>, \<open>binade x\<close> is the exponent \<open>e\<close> with \<open>2^e \<le> |x| < 2^(e+1)\<close>, and
  the doubles around \<open>x\<close> are the multiples of \<open>2^(e-52)\<close>. The limits of the exponent are
  left out: the values computed here stay far below the largest double, and a result
  below the normal range is rounded as if that range went on.
\<close>

definition binade :: "rat \<Rightarrow> int" where
  "binade x =
     (let a = fst (quotient_of x); b = snd (quotient_of x); d = bitlen a - bitlen b
      in if 2 powi d \<le> x then d else d - 1)"

definition round_even :: "rat \<Rightarrow> int" where
  "round_even q =
     (let f = \<lfloor>q\<rfloor>; d = q - of_int f
      in if d < 1 / 2 then f else if 1 / 2 < d then f + 1 else if even f then f else f + 1)"

definition round_double :: "rat \<Rightarrow> rat" where
  "round_double x =
     (if x = 0 then 0
      else (let s = binade \<bar>x\<bar> - 52
            in sgn x * of_int (round_even (\<bar>x\<bar> / 2 powi s)) * 2 powi s))"

subsection \<open>Bookings (\<open>index.js\<close>)\<close>

text \<open>The decimal digits of a natural number, as a template literal prints an integer.\<close>

fun decimal :: "nat \<Rightarrow> jstring" where
  "decimal n =
     (if n < 10 then [of_nat (48 + n)] else decimal (n div 10) @ [of_nat (48 + n mod 10)])"

declare decimal.simps [simp del]

text \<open>
  \<open>`TR-${Math.floor(100000 + Math.random() * 900000)}`\<close>, with the value \<open>r\<close> that
  \<open>Math.random()\<close> returned: a product and a sum of doubles, each rounded.
\<close>

definition new_bookingId :: "rat \<Rightarrow> jstring" where
  "new_bookingId r =
     ascii ''TR-'' @
     decimal (nat \<lfloor>round_double (100000 + round_double (r * 900000))\<rfloor>)"

definition internal_error :: "env \<Rightarrow> error \<Rightarrow> jsval" where
  "internal_error e x =
     JObj [(''error'', JStr (ascii ''Internal server error'')),
           (''details'', JStr (errorMessage e x))]"

text \<open>\<open>POST /bookings\<close>\<close>

definition post_bookings ::
  "env \<Rightarrow> int \<Rightarrow> rat \<Rightarrow> 96 word \<Rightarrow> doc \<Rightarrow> doc list \<Rightarrow> reply \<times> doc list" where
  "post_bookings e now r newId bookingData Bookings =
     (let newBooking =
            put ''paymentDate'' (JDate now)
              (put ''updatedAt'' (JDate now)
                 (put ''createdAt'' (JDate now)
                    (put ''bookingId'' (JStr (new_bookingId r)) bookingData)))
      in case insertOne newId newBooking Bookings of
           Inl x \<Rightarrow> (Reply 500 (internal_error e x), Bookings)
         | Inr (insertedId, newBooking', Bookings') \<Rightarrow>
             (let paymentInfo = get newBooking' ''paymentInfo'';
                  cardNumber = getField paymentInfo ''cardNumber''
              in case (if truthy cardNumber
                       then (case maskCardNumber e cardNumber of
                               Inl x \<Rightarrow> Inl x
                             | Inr masked \<Rightarrow>
                                 Inr (JObj (put ''cardNumber'' (JStr masked)
                                              (spread paymentInfo))))
                       else Inr paymentInfo) of
                   Inl x \<Rightarrow> (Reply 500 (internal_error e x), Bookings')
                 | Inr shown \<Rightarrow>
                     (Reply 201
                        (JObj [(''message'', JStr (ascii ''Booking confirmed successfully'')),
                               (''bookingId'', get newBooking' ''bookingId''),
                               (''data'',
                                JObj (json_doc
                                        (put ''paymentInfo'' shown
                                           (put ''_id'' insertedId newBooking'))))]),
                      Bookings')))"

text \<open>
  \<open>GET /bookings\<close>. The response maps every booking found to its display form; a date
  that cannot be converted throws, and the \<open>catch\<close> answers 500.
\<close>

definition display :: "env \<Rightarrow> doc \<Rightarrow> error + doc" where
  "display e booking =
     (case formatDisplayDate e (get booking ''startDate'') of
        Inl x \<Rightarrow> Inl x
      | Inr startDate \<Rightarrow>
          (case formatDisplayDate e (get booking ''endDate'') of
             Inl x \<Rightarrow> Inl x
           | Inr endDate \<Rightarrow>
               Inr (put ''endDate'' endDate (put ''startDate'' startDate booking))))"

fun display_all :: "env \<Rightarrow> doc list \<Rightarrow> error + doc list" where
  "display_all e [] = Inr []"
| "display_all e (b # bs) =
     (case display e b of
        Inl x \<Rightarrow> Inl x
      | Inr d \<Rightarrow> (case display_all e bs of Inl x \<Rightarrow> Inl x | Inr ds \<Rightarrow> Inr (d # ds)))"

definition get_bookings :: "env \<Rightarrow> doc \<Rightarrow> doc list \<Rightarrow> reply" where
  "get_bookings e reqQuery Bookings =
     (let email = get reqQuery ''email''
      in if \<not> truthy email then Reply 400 (err ''Email is required'')
         else
           (case find_all e [Eq ''email'' (bson email)] Bookings of
              Inl x \<Rightarrow> Reply 500 (err ''Internal server error'')
            | Inr found \<Rightarrow>
                (let bookings = map (project_out ''paymentInfo'') (sort_desc found)
                 in case display_all e bookings of
                      Inl x \<Rightarrow> Reply 500 (err ''Internal server error'')
                    | Inr shown \<Rightarrow>
                        Reply 200
                          (JObj [(''count'', JNum (of_nat (length bookings))),
                                 (''data'', JArr (map JObj shown))]))))"

text \<open>
  \<open>GET /admin/bookings\<close>. \<open>new Date\<close> of a value of the query string (a string, or an
  array or object of strings) can throw as well; the driver writes an invalid date of a
  query as the epoch.
\<close>

definition bson_date :: "int option \<Rightarrow> int" where
  "bson_date d = (case d of None \<Rightarrow> 0 | Some t \<Rightarrow> t)"

definition admin_query :: "env \<Rightarrow> doc \<Rightarrow> error + cond list" where
  "admin_query e reqQuery =
     (let status = get reqQuery ''status'';
          resortId = get reqQuery ''resortId'';
          startDate = get reqQuery ''startDate'';
          endDate = get reqQuery ''endDate'';
          query = (if truthy status then [Eq ''status'' status] else [])
                  @ (if truthy resortId then [Eq ''resortId'' resortId] else [])
      in if truthy startDate \<and> truthy endDate
         then (case new_Date e startDate of
                 Inl x \<Rightarrow> Inl x
               | Inr lower \<Rightarrow>
                   (case new_Date e endDate of
                      Inl x \<Rightarrow> Inl x
                    | Inr upper \<Rightarrow>
                        Inr (query @ [Gte ''startDate'' (bson_date lower),
                                      Lte ''endDate'' (bson_date upper)])))
         else Inr query)"

definition admin_bookings :: "env \<Rightarrow> doc \<Rightarrow> doc list \<Rightarrow> reply" where
  "admin_bookings e reqQuery Bookings =
     (case admin_query e reqQuery of
        Inl x \<Rightarrow> Reply 500 (err ''Internal server error'')
      | Inr query \<Rightarrow>
          (case find_all e query Bookings of
             Inl x \<Rightarrow> Reply 500 (err ''Internal server error'')
           | Inr found \<Rightarrow>
               (let bookings = sort_desc found
                in Reply 200
                     (JObj [(''count'', JNum (of_nat (length bookings))),
                            (''data'', JArr (map JObj bookings))]))))"

text \<open>
  \<open>PUT /bookings/:id/cancel\<close>. Whatever is thrown between \<open>try\<close> and \<open>catch\<close> (by
  \<open>ObjectId\<close>, by the store, by \<open>new Date\<close> of the stored start date) ends in the 500 of the
  \<open>catch\<close>, before anything is written.
\<close>

definition cancellation_update :: "env \<Rightarrow> int \<Rightarrow> jsval \<Rightarrow> doc \<Rightarrow> error + doc" where
  "cancellation_update e now cancellationReason booking =
     (case new_Date e (get booking ''startDate'') of
        Inl x \<Rightarrow> Inl x
      | Inr startDate \<Rightarrow>
          (let refundDeadline = setDate_back e 3 startDate
           in Inr [(''status'', JStr (ascii ''cancelled'')),
                   (''updatedAt'', JDate now),
                   (''cancellation'',
                    JObj [(''date'', JDate now),
                          (''reason'',
                           if truthy cancellationReason then cancellationReason
                           else JStr (ascii ''User requested'')),
                          (''refundEligible'', JBool (date_less now refundDeadline))])]))"

definition put_cancel ::
  "env \<Rightarrow> int \<Rightarrow> jstring \<Rightarrow> doc \<Rightarrow> doc list \<Rightarrow> reply \<times> doc list" where
  "put_cancel e now ident reqBody Bookings =
     (let cancellationReason = get reqBody ''cancellationReason''
      in case objectId e ident of
           None \<Rightarrow> (Reply 500 (err ''Internal server error''), Bookings)
         | Some oid \<Rightarrow>
             (case findOne e [Eq ''_id'' (JOid oid)] Bookings of
                Inl x \<Rightarrow> (Reply 500 (err ''Internal server error''), Bookings)
              | Inr None \<Rightarrow> (Reply 404 (err ''Booking not found''), Bookings)
              | Inr (Some booking) \<Rightarrow>
                  if get booking ''status'' = JStr (ascii ''cancelled'')
                  then (Reply 400 (err ''Booking already cancelled''), Bookings)
                  else
                    (case cancellation_update e now cancellationReason booking of
                       Inl x \<Rightarrow> (Reply 500 (err ''Internal server error''), Bookings)
                     | Inr update \<Rightarrow>
                         (case updateOne e [Eq ''_id'' (JOid oid)] update Bookings of
                            Inl x \<Rightarrow> (Reply 500 (err ''Internal server error''), Bookings)
                          | Inr result \<Rightarrow>
                              (Reply 200
                                 (JObj [(''message'',
                                         JStr (ascii ''Booking cancelled successfully'')),
                                        (''refundEligible'',
                                         getField (get update ''cancellation'')
                                           ''refundEligible'')]),
                               snd result)))))"

text \<open>The requests that reach the bookings collection, and a server run over a list of them.\<close>

datatype request =
    PostBooking int rat "96 word" doc
  | GetBookings doc
  | AdminBookings doc
  | CancelBooking int jstring doc

fun serve :: "env \<Rightarrow> request \<Rightarrow> doc list \<Rightarrow> reply \<times> doc list" where
  "serve e (PostBooking now r newId bookingData) bs = post_bookings e now r newId bookingData bs"
| "serve e (GetBookings q) bs = (get_bookings e q bs, bs)"
| "serve e (AdminBookings q) bs = (admin_bookings e q bs, bs)"
| "serve e (CancelBooking now ident reqBody) bs = put_cancel e now ident reqBody bs"

fun run :: "env \<Rightarrow> request list \<Rightarrow> doc list \<Rightarrow> doc list" where
  "run e [] bs = bs"
| "run e (rq # rqs) bs = run e rqs (snd (serve e rq bs))"

text \<open>Did the handler answer with this status?\<close>

definition replied :: "nat \<Rightarrow> reply \<Rightarrow> bool" where
  "replied n rp = (case rp of Reply st b \<Rightarrow> st = n | Unhandled \<Rightarrow> False)"

text \<open>The number a list of decimal digits denotes.\<close>

definition digits_value :: "nat list \<Rightarrow> nat" where
  "digits_value ds = foldl (\<lambda>a d. 10 * a + d) 0 ds"

subsection \<open>A concrete runtime\<close>

text \<open>
  A server in UTC, with the values of \<open>Date.parse\<close> and \<open>ObjectId\<close> for the strings used
  in the examples below. An object converts to \<open>[object Object]\<close> unless it has a
  \<open>toString\<close> property of its own, which (read back from the store) is no function: then
  the conversion throws. The store knows the operator \<open>$ne\<close>. The conversions the examples
  do not reach return the empty string.
\<close>

definition sample_parse :: "jstring \<Rightarrow> int option" where
  "sample_parse s =
     map_of [(ascii ''2025-03-10'', 1741564800000),
             (ascii ''2025-06-01'', 1748736000000),
             (ascii ''2025-06-10'', 1749513600000),
             (ascii ''2025-06-12'', 1749686400000),
             (ascii ''2025-06-30'', 1751241600000)] s"

definition sample_objectId :: "jstring \<Rightarrow> 96 word option" where
  "sample_objectId s =
     map_of [(ascii ''665f1c2ab3d4e5f6a7b8c9d0'', 0x665f1c2ab3d4e5f6a7b8c9d0),
             (ascii ''665f1c2ab3d4e5f6a7b8c9d1'', 0x665f1c2ab3d4e5f6a7b8c9d1)] s"

definition sample_toPrimitive :: "jsval \<Rightarrow> jstring option" where
  "sample_toPrimitive v =
     (case v of
        JObj d \<Rightarrow>
          if ''toString'' \<in> set (map fst d) then None else Some (ascii ''[object Object]'')
      | _ \<Rightarrow> Some [])"

definition sample_operator :: "doc \<Rightarrow> (jsval \<Rightarrow> bool) option" where
  "sample_operator d =
     (case d of [(k, q)] \<Rightarrow> if k = ''$ne'' then Some (\<lambda>v. \<not> eq_match q v) else None
      | _ \<Rightarrow> None)"

definition sample_env :: env where
  "sample_env =
     \<lparr>parseDate = sample_parse, toPrimitive = sample_toPrimitive, localTZA = (\<lambda>t u. 0),
      objectId = sample_objectId, formatDate = (\<lambda>d. []), errorMessage = (\<lambda>x. []),
      operator = sample_operator\<rparr>"




definition odd_booking :: doc where
  "odd_booking =
     [(''_id'', JOid 0x665f1c2ab3d4e5f6a7b8c9d0),
      (''email'', JStr (ascii ''a@b.c'')),
      (''startDate'', JObj [(''toString'', JNum 1)]),
      (''createdAt'', JDate 1740000000000)]"

text \<open>Two stored bookings, one of them cancelled, and a sequence of requests.\<close>

definition sample_booking :: doc where
  "sample_booking =
     [(''_id'', JOid 0x665f1c2ab3d4e5f6a7b8c9d0),
      (''email'', JStr (ascii ''a@b.c'')),
      (''startDate'', JStr (ascii ''2025-06-10'')),
      (''endDate'', JStr (ascii ''2025-06-12'')),
      (''paymentInfo'', JObj [(''cardNumber'', JStr (ascii ''4111111111111234''))]),
      (''bookingId'', JStr (ascii ''TR-550000'')),
      (''createdAt'', JDate 1748000000000)]"

definition cancelled_booking :: doc where
  "cancelled_booking =
     [(''_id'', JOid 0x665f1c2ab3d4e5f6a7b8c9d1),
      (''email'', JStr (ascii ''a@b.c'')),
      (''startDate'', JStr (ascii ''2025-06-10'')),
      (''status'', JStr (ascii ''cancelled'')),
      (''cancellation'',
       JObj [(''date'', JDate 1748736000000), (''reason'', JStr (ascii ''User requested'')),
             (''refundEligible'', JBool True)]),
      (''createdAt'', JDate 1747000000000)]"


text \<open>A stored user, and the booking a creation request leaves in an empty collection.\<close>

definition sample_user :: doc where
  "sample_user =
     [(''_id'', JOid 0x665f1c2ab3d4e5f6a7b8c9aa),
      (''name'', JStr (ascii ''Ann'')),
      (''email'', JStr (ascii ''a@b.c'')),
      (''photoURL'', JNull),
      (''isAdmin'', JBool False),
      (''createdAt'', JDate 1740000000000)]"

definition created_booking :: doc where
  "created_booking =
     [(''email'', JStr (ascii ''a@b.c'')),
      (''resortId'', JStr (ascii ''r1'')),
      (''startDate'', JStr (ascii ''2025-06-10'')),
      (''endDate'', JStr (ascii ''2025-06-12'')),
      (''bookingId'', JStr (ascii ''TR-550000'')),
      (''createdAt'', JDate 1748000000000),
      (''updatedAt'', JDate 1748000000000),
      (''paymentDate'', JDate 1748000000000),
      (''_id'', JOid 7)]"


text \<open>The documents in the \<open>data\<close> array of a response (none when it has no such array).\<close>

definition listed :: "reply \<Rightarrow> doc list" where
  "listed rp =
     (case rp of
        Reply st b \<Rightarrow>
          (case getField b ''data'' of
             JArr xs \<Rightarrow> concat (map (\<lambda>x. case x of JObj d \<Rightarrow> [d] | _ \<Rightarrow> []) xs)
           | _ \<Rightarrow> [])
      | Unhandled \<Rightarrow> [])"
section \<open>Documents\<close>

lemma get_put: "get (put k v d) k' = (if k' = k then v else get d k')"
  by (induction d) (auto simp: get_def)

lemma get_Cons: "get ((k, v) # d) k' = (if k' = k then v else get d k')"
  by (simp add: get_def)

lemma get_bson_doc: "get d k \<noteq> JUndefined \<Longrightarrow> get (bson_doc d) k = get d k"
  by (induction d) (auto simp: get_def bson_doc_def bson_def split: option.splits)

lemma get_json_doc: "get d k \<noteq> JUndefined \<Longrightarrow> get (json_doc d) k = get d k"
  by (induction d) (auto simp: get_def json_doc_def split: option.splits)

lemma keys_put: "fst ` set (put k v d) = insert k (fst ` set d)"
  by (induction d) auto

section \<open>Card masking\<close>

lemma slice_last4_short: "length xs \<le> 4 \<Longrightarrow> slice_last4 xs = xs"
  by (simp add: slice_last4_def Let_def)

lemma slice_last4_eq: "slice_last4 xs = drop (length xs - 4) xs"
  by (simp add: slice_last4_def Let_def max_def nat_diff_distrib')

section \<open>Booking creation\<close>

lemma insertOne_Inr:
  "insertOne newId d coll = Inr (i, d', coll') \<Longrightarrow>
     coll' = coll @ [bson_doc d'] \<and> i = get d' ''_id'' \<and>
     (d' = d \<or> d' = put ''_id'' (JOid newId) d)"
  by (auto simp: insertOne_def Let_def split: if_splits)

lemma get_insertOne:
  "insertOne newId d coll = Inr (i, d', coll') \<Longrightarrow> k \<noteq> ''_id'' \<Longrightarrow> get d' k = get d k"
  by (auto dest!: insertOne_Inr simp: get_put)

lemma post_bookings_201:
  assumes run: "replied 201 (fst (post_bookings e now r newId bookingData bs))"
  obtains i nb shown where
    "insertOne newId
       (put ''paymentDate'' (JDate now)
          (put ''updatedAt'' (JDate now)
             (put ''createdAt'' (JDate now)
                (put ''bookingId'' (JStr (new_bookingId r)) bookingData)))) bs
       = Inr (i, nb, snd (post_bookings e now r newId bookingData bs))"
    "body (fst (post_bookings e now r newId bookingData bs)) =
       JObj [(''message'', JStr (ascii ''Booking confirmed successfully'')),
             (''bookingId'', get nb ''bookingId''),
             (''data'', JObj (json_doc (put ''paymentInfo'' shown (put ''_id'' i nb))))]"
    "if truthy (getField (get nb ''paymentInfo'') ''cardNumber'')
     then \<exists>masked. maskCardNumber e (getField (get nb ''paymentInfo'') ''cardNumber'') = Inr masked
            \<and> shown = JObj (put ''cardNumber'' (JStr masked) (spread (get nb ''paymentInfo'')))
     else shown = get nb ''paymentInfo''"
  using run unfolding post_bookings_def Let_def replied_def
  by (auto split: sum.splits prod.splits if_splits)

lemma post_bookings_card:
  assumes pi: "get bookingData ''paymentInfo'' = JObj pinfo"
      and cn: "get pinfo ''cardNumber'' = JStr s" and ne: "s \<noteq> []"
      and run: "replied 201 (fst (post_bookings e now r newId bookingData bs))"
  shows "getField (getField (body (fst (post_bookings e now r newId bookingData bs))) ''data'')
           ''paymentInfo'' =
           JObj (put ''cardNumber'' (JStr (mask_prefix @ drop (length s - 4) s)) pinfo)"
proof -
  from run obtain i nb shown where
    ins: "insertOne newId
       (put ''paymentDate'' (JDate now)
          (put ''updatedAt'' (JDate now)
             (put ''createdAt'' (JDate now)
                (put ''bookingId'' (JStr (new_bookingId r)) bookingData)))) bs
       = Inr (i, nb, snd (post_bookings e now r newId bookingData bs))"
    and b: "body (fst (post_bookings e now r newId bookingData bs)) =
       JObj [(''message'', JStr (ascii ''Booking confirmed successfully'')),
             (''bookingId'', get nb ''bookingId''),
             (''data'', JObj (json_doc (put ''paymentInfo'' shown (put ''_id'' i nb))))]"
    and sh: "if truthy (getField (get nb ''paymentInfo'') ''cardNumber'')
     then \<exists>masked. maskCardNumber e (getField (get nb ''paymentInfo'') ''cardNumber'') = Inr masked
            \<and> shown = JObj (put ''cardNumber'' (JStr masked) (spread (get nb ''paymentInfo'')))
     else shown = get nb ''paymentInfo''"
    by (rule post_bookings_201)
  have "get nb ''paymentInfo'' = JObj pinfo"
    using get_insertOne [OF ins, of "''paymentInfo''"] pi by (simp add: get_put)
  with sh cn ne have shown:
    "shown = JObj (put ''cardNumber'' (JStr (mask_prefix @ slice_last4 s)) pinfo)"
    by auto
  have "get (json_doc (put ''paymentInfo'' shown (put ''_id'' i nb))) ''paymentInfo'' = shown"
    by (subst get_json_doc) (simp_all add: get_put shown)
  then show ?thesis
    by (simp add: b get_Cons shown slice_last4_eq)
qed

lemma post_bookings_falsy_card:
  assumes pi: "get bookingData ''paymentInfo'' = JObj pinfo"
      and run: "replied 201 (fst (post_bookings e now r newId bookingData bs))"
      and cn: "\<not> truthy (get pinfo ''cardNumber'')"
  shows "getField (getField (body (fst (post_bookings e now r newId bookingData bs))) ''data'')
           ''paymentInfo'' = JObj pinfo"
proof -
  from run obtain i nb shown where
    ins: "insertOne newId
       (put ''paymentDate'' (JDate now)
          (put ''updatedAt'' (JDate now)
             (put ''createdAt'' (JDate now)
                (put ''bookingId'' (JStr (new_bookingId r)) bookingData)))) bs
       = Inr (i, nb, snd (post_bookings e now r newId bookingData bs))"
    and b: "body (fst (post_bookings e now r newId bookingData bs)) =
       JObj [(''message'', JStr (ascii ''Booking confirmed successfully'')),
             (''bookingId'', get nb ''bookingId''),
             (''data'', JObj (json_doc (put ''paymentInfo'' shown (put ''_id'' i nb))))]"
    and sh: "if truthy (getField (get nb ''paymentInfo'') ''cardNumber'')
     then \<exists>masked. maskCardNumber e (getField (get nb ''paymentInfo'') ''cardNumber'') = Inr masked
            \<and> shown = JObj (put ''cardNumber'' (JStr masked) (spread (get nb ''paymentInfo'')))
     else shown = get nb ''paymentInfo''"
    by (rule post_bookings_201)
  have "get nb ''paymentInfo'' = JObj pinfo"
    using get_insertOne [OF ins, of "''paymentInfo''"] pi by (simp add: get_put)
  with sh cn have shown: "shown = JObj pinfo" by simp
  have "get (json_doc (put ''paymentInfo'' shown (put ''_id'' i nb))) ''paymentInfo'' = shown"
    by (subst get_json_doc) (simp_all add: get_put shown)
  then show ?thesis
    by (simp add: b get_Cons shown)
qed

section \<open>Double arithmetic\<close>

lemma bitlen_powi:
  assumes "0 < a"
  shows "(2::rat) powi (bitlen a - 1) \<le> of_int a" "of_int a < (2::rat) powi bitlen a"
proof -
  from bitlen_bounds [OF assms]
  have 1: "2 ^ nat (bitlen a - 1) \<le> a" and 2: "a < 2 ^ nat (bitlen a)" by simp_all
  have ge: "1 \<le> bitlen a" using assms
    by (metis bitlen_eq_zero_iff bitlen_nonneg less_le not_less zless_imp_add1_zle zero_less_one add.left_neutral)
  have "(2::rat) powi (bitlen a - 1) = 2 ^ nat (bitlen a - 1)"
    using ge by (simp add: power_int_nonneg_exp)
  also have "\<dots> = of_int (2 ^ nat (bitlen a - 1))" by simp
  also have "\<dots> \<le> of_int a" using 1 by (simp only: of_int_le_iff)
  finally show "(2::rat) powi (bitlen a - 1) \<le> of_int a" .
  have "of_int a < (of_int (2 ^ nat (bitlen a)) :: rat)" using 2 by (simp only: of_int_less_iff)
  also have "\<dots> = 2 powi bitlen a"
    using ge by (simp add: power_int_nonneg_exp)
  finally show "of_int a < (2::rat) powi bitlen a" .
qed

lemma binade_bounds:
  assumes "0 < x"
  shows "2 powi binade x \<le> x" "x < 2 powi (binade x + 1)"
proof -
  define a where "a = fst (quotient_of x)"
  define b where "b = snd (quotient_of x)"
  have q: "quotient_of x = (a, b)" by (simp add: a_def b_def)
  have b: "0 < b" using quotient_of_denom_pos [OF q] .
  have x: "x = of_int a / of_int b" using quotient_of_div [OF q] .
  have a: "0 < a" using assms b x by (simp add: zero_less_divide_iff)
  define d where "d = bitlen a - bitlen b"
  have lo: "(2::rat) powi (d - 1) < x"
  proof -
    have "(2::rat) powi (d - 1) * of_int b < 2 powi (d - 1) * 2 powi bitlen b"
      using bitlen_powi(2) [OF b] by simp
    also have "\<dots> = 2 powi (bitlen a - 1)"
      by (simp add: d_def power_int_add [symmetric])
    also have "\<dots> \<le> of_int a" by (rule bitlen_powi(1) [OF a])
    finally show ?thesis using b by (simp add: x pos_less_divide_eq)
  qed
  have hi: "x < (2::rat) powi (d + 1)"
  proof -
    have "of_int a < (2::rat) powi bitlen a" by (rule bitlen_powi(2) [OF a])
    also have "\<dots> = 2 powi (d + 1) * 2 powi (bitlen b - 1)"
      by (simp add: d_def power_int_add [symmetric])
    also have "\<dots> \<le> 2 powi (d + 1) * of_int b"
      using bitlen_powi(1) [OF b] by simp
    finally show ?thesis using b by (simp add: x pos_divide_less_eq)
  qed
  have e: "binade x = (if 2 powi d \<le> x then d else d - 1)"
    by (simp add: binade_def Let_def a_def b_def d_def)
  show "2 powi binade x \<le> x" using lo by (simp add: e)
  show "x < 2 powi (binade x + 1)" using hi by (auto simp: e)
qed

lemma powi_less_cancel:
  assumes "(2::rat) powi m < 2 powi n"
  shows "m < n"
proof (rule ccontr)
  assume "\<not> m < n"
  then have "n \<le> m" by simp
  then have "(2::rat) powi n \<le> 2 powi m" by (rule power_int_increasing) simp
  with assms show False by simp
qed

lemma binade_unique:
  assumes "2 powi e \<le> x" and "x < 2 powi (e + 1)"
  shows "binade x = e"
proof -
  have "(0::rat) < 2 powi e" by simp
  with assms(1) have pos: "0 < x" by linarith
  from binade_bounds [OF pos] assms
  have 1: "(2::rat) powi binade x < 2 powi (e + 1)"
    and 2: "(2::rat) powi e < 2 powi (binade x + 1)"
    by linarith+
  have "binade x < e + 1" using 1 by (rule powi_less_cancel)
  moreover have "e < binade x + 1" using 2 by (rule powi_less_cancel)
  ultimately show ?thesis by simp
qed

lemma binade_mono:
  assumes "0 < x" and "x \<le> y"
  shows "binade x \<le> binade y"
proof -
  have "0 < y" using assms by simp
  from binade_bounds(1) [OF assms(1)] binade_bounds(2) [OF this] assms(2)
  have "(2::rat) powi binade x < 2 powi (binade y + 1)" by linarith
  then have "binade x < binade y + 1" by (rule powi_less_cancel)
  then show ?thesis by simp
qed

lemma round_even_le: "q \<le> of_int m \<Longrightarrow> round_even q \<le> m"
proof -
  assume le: "q \<le> of_int m"
  have f: "\<lfloor>q\<rfloor> \<le> m" using le by (simp add: floor_le_iff)
  show ?thesis
  proof (cases "q = of_int m")
    case True
    then show ?thesis by (simp add: round_even_def)
  next
    case False
    with le have "q < of_int m" by simp
    then have "\<lfloor>q\<rfloor> < m" by (simp add: floor_less_iff)
    then show ?thesis by (simp add: round_even_def Let_def)
  qed
qed

lemma round_even_ge: "of_int m \<le> q \<Longrightarrow> m \<le> round_even q"
proof -
  assume "of_int m \<le> q"
  then have "m \<le> \<lfloor>q\<rfloor>" by (simp add: le_floor_iff)
  then show ?thesis by (simp add: round_even_def Let_def)
qed

lemma round_even_down:
  assumes "of_int m \<le> q" and "q < of_int m + 1 / 2"
  shows "round_even q = m"
proof -
  have "\<lfloor>q\<rfloor> = m" using assms by (simp add: floor_eq_iff)
  with assms show ?thesis by (simp add: round_even_def Let_def)
qed

lemma binade_normal:
  assumes "2 ^ 52 \<le> m" and "m < 2 ^ 53"
  shows "binade (of_int m * 2 powi k) = k + 52"
proof (rule binade_unique)
  have "(2::rat) powi (k + 52) = 2 ^ 52 * 2 powi k" by (simp add: power_int_add)
  also have "\<dots> \<le> of_int m * 2 powi k"
    using assms(1) by (intro mult_right_mono) (simp_all add: of_int_le_iff [symmetric] del: of_int_le_iff)
  finally show "(2::rat) powi (k + 52) \<le> of_int m * 2 powi k" .
  have "of_int m * (2::rat) powi k < 2 ^ 53 * 2 powi k"
    using assms(2) by (intro mult_strict_right_mono) (simp_all add: of_int_less_iff [symmetric] del: of_int_less_iff)
  also have "\<dots> = 2 powi (k + 52 + 1)" by (simp add: power_int_add)
  finally show "of_int m * (2::rat) powi k < 2 powi (k + 52 + 1)" .
qed

lemma round_double_pos: "0 < x \<Longrightarrow> round_double x = of_int (round_even (x / 2 powi (binade x - 52))) * 2 powi (binade x - 52)"
  by (simp add: round_double_def Let_def)

lemma round_double_nonneg: "0 \<le> x \<Longrightarrow> 0 \<le> round_double x"
proof (cases "x = 0")
  case True
  then show ?thesis by (simp add: round_double_def)
next
  case False
  assume "0 \<le> x"
  with False have pos: "0 < x" by simp
  have "of_int 0 \<le> x / 2 powi (binade x - 52)" using pos by simp
  then have "0 \<le> round_even (x / 2 powi (binade x - 52))" by (rule round_even_ge)
  then show ?thesis by (simp add: round_double_pos [OF pos])
qed

lemma round_double_le:
  assumes pos: "0 < x" and le: "x \<le> of_int m * 2 powi k"
      and m: "2 ^ 52 \<le> m" "m < 2 ^ 53"
  shows "round_double x \<le> of_int m * 2 powi k"
proof -
  define s where "s = binade x - 52"
  have "binade x \<le> binade (of_int m * 2 powi k)" using pos le by (rule binade_mono)
  then have sk: "s \<le> k" by (simp add: binade_normal [OF m] s_def)
  have p: "(2::rat) powi k = 2 ^ nat (k - s) * 2 powi s"
    using sk by (simp add: power_int_add [symmetric] power_int_nonneg_exp [symmetric])
  have "x / 2 powi s \<le> of_int m * 2 powi k / 2 powi s"
    using le by (simp add: divide_right_mono)
  also have "\<dots> = of_int (m * 2 ^ nat (k - s))" by (simp add: p)
  finally have "round_even (x / 2 powi s) \<le> m * 2 ^ nat (k - s)" by (rule round_even_le)
  then have "(of_int (round_even (x / 2 powi s)) :: rat) \<le> of_int (m * 2 ^ nat (k - s))"
    by (simp only: of_int_le_iff)
  then have "of_int (round_even (x / 2 powi s)) * 2 powi s
               \<le> (of_int (m * 2 ^ nat (k - s)) :: rat) * 2 powi s"
    by (intro mult_right_mono) simp_all
  also have "\<dots> = of_int m * 2 powi k" by (simp add: p)
  finally show ?thesis by (simp add: round_double_pos [OF pos] s_def)
qed

lemma round_double_ge:
  assumes le: "of_int m * 2 powi k \<le> x" and m: "2 ^ 52 \<le> m" "m < 2 ^ 53"
  shows "of_int m * 2 powi k \<le> round_double x"
proof -
  define s where "s = binade x - 52"
  have gpos: "(0::rat) < of_int m * 2 powi k" using m(1) by (simp add: zero_less_mult_iff)
  with le have pos: "0 < x" by simp
  have "binade (of_int m * 2 powi k) \<le> binade x" using gpos le by (rule binade_mono)
  then have ks: "k \<le> s" by (simp add: binade_normal [OF m] s_def)
  have f: "round_double x = of_int (round_even (x / 2 powi s)) * 2 powi s"
    by (simp add: round_double_pos [OF pos] s_def)
  show ?thesis
  proof (cases "k = s")
    case True
    have "of_int m \<le> x / 2 powi s" using le True by (simp add: pos_le_divide_eq)
    then have "m \<le> round_even (x / 2 powi s)" by (rule round_even_ge)
    then have "(of_int m :: rat) \<le> of_int (round_even (x / 2 powi s))"
      by (simp only: of_int_le_iff)
    then have "of_int m * 2 powi s \<le> (of_int (round_even (x / 2 powi s)) :: rat) * 2 powi s"
      by (intro mult_right_mono) simp_all
    then show ?thesis by (simp add: f True)
  next
    case False
    with ks have lt: "k + 1 \<le> s" by simp
    have "(2::rat) powi (s + 52) \<le> x" using binade_bounds(1) [OF pos] by (simp add: s_def)
    then have "2 ^ 52 * (2::rat) powi s \<le> x" by (simp add: power_int_add mult.commute)
    then have "of_int (2 ^ 52) \<le> x / 2 powi s" by (simp add: pos_le_divide_eq)
    then have "2 ^ 52 \<le> round_even (x / 2 powi s)" by (rule round_even_ge)
    then have "(of_int (2 ^ 52) :: rat) \<le> of_int (round_even (x / 2 powi s))"
      by (simp only: of_int_le_iff)
    then have "of_int (2 ^ 52) * 2 powi s \<le> (of_int (round_even (x / 2 powi s)) :: rat) * 2 powi s"
      by (intro mult_right_mono) simp_all
    then have a: "2 ^ 52 * 2 powi s \<le> (of_int (round_even (x / 2 powi s)) :: rat) * 2 powi s"
      by simp
    have "of_int m * (2::rat) powi k \<le> 2 ^ 53 * 2 powi k"
      using m(2) by (intro mult_right_mono) (simp_all add: of_int_le_iff [symmetric] del: of_int_le_iff)
    also have "\<dots> = 2 ^ 52 * 2 powi (k + 1)" by (simp add: power_int_add)
    also have "\<dots> \<le> 2 ^ 52 * 2 powi s"
      using lt by (intro mult_left_mono power_int_increasing) simp_all
    finally have b: "of_int m * (2::rat) powi k \<le> 2 ^ 52 * 2 powi s" .
    show ?thesis unfolding f by (rule order_trans [OF b a])
  qed
qed

lemma round_double_exact:
  assumes "2 ^ 52 \<le> m" "m < 2 ^ 53"
  shows "round_double (of_int m * 2 powi k) = of_int m * 2 powi k"
proof -
  have "(0::rat) < of_int m * 2 powi k" using assms(1) by (simp add: zero_less_mult_iff)
  then have "round_double (of_int m * 2 powi k) \<le> of_int m * 2 powi k"
    by (rule round_double_le [OF _ order_refl assms])
  moreover have "of_int m * 2 powi k \<le> round_double (of_int m * 2 powi k)"
    by (rule round_double_ge [OF order_refl assms])
  ultimately show ?thesis by simp
qed

lemma powi_neg_numeral: "(2::rat) powi (- int n) = 1 / 2 ^ n"
  by (simp add: power_int_minus divide_inverse)

lemma double_below_one:
  assumes d: "round_double r = r" and r: "0 \<le> r" "r < 1"
  shows "r \<le> 1 - 1 / 2 ^ 53"
proof (rule ccontr)
  assume "\<not> r \<le> 1 - 1 / 2 ^ 53"
  then have g: "1 - 1 / 2 ^ 53 < r" by simp
  then have pos: "0 < r" by simp
  have "binade r = - 1"
  proof (rule binade_unique)
    show "2 powi - 1 \<le> r" using g by simp
    show "r < 2 powi (- 1 + 1)" using r(2) by simp
  qed
  then have f: "round_double r = of_int (round_even (r / 2 powi (- 53))) * 2 powi (- 53)"
    by (simp add: round_double_pos [OF pos])
  define n where "n = round_even (r / 2 powi (- 53))"
  have p: "(2::rat) powi (- 53) = 1 / 2 ^ 53" using powi_neg_numeral [of 53] by simp
  from f d have "r = of_int n * (1 / 2 ^ 53)" by (simp add: n_def p)
  then have rn: "r * 2 ^ 53 = of_int n" by simp
  have "(2 ^ 53 - 1 :: rat) < r * 2 ^ 53" using g by (simp add: field_simps)
  then have "(2 ^ 53 - 1 :: rat) < of_int n" by (simp only: rn)
  then have "(of_int (2 ^ 53 - 1) :: rat) < of_int n" by simp
  then have 1: "2 ^ 53 - 1 < n" by (simp only: of_int_less_iff)
  have "r * 2 ^ 53 < (2 ^ 53 :: rat)" using r(2) by simp
  then have "(of_int n :: rat) < 2 ^ 53" by (simp only: rn)
  then have "(of_int n :: rat) < of_int (2 ^ 53)" by simp
  then have 2: "n < 2 ^ 53" by (simp only: of_int_less_iff)
  from 1 2 show False by simp
qed

lemma product_bound:
  assumes "0 \<le> r" and "r \<le> 1 - 1 / 2 ^ 53"
  shows "0 \<le> round_double (r * 900000)" and "round_double (r * 900000) \<le> 900000 - 1 / 2 ^ 33"
proof -
  define x where "x = r * 900000"
  have x0: "0 \<le> x" using assms(1) by (simp add: x_def)
  have xmax: "x \<le> 900000 - 900000 / 2 ^ 53" using assms(2) by (simp add: x_def)
  show "0 \<le> round_double (r * 900000)" using round_double_nonneg [OF x0] by (simp add: x_def)
  have p: "(2::rat) powi (- 33) = 1 / 2 ^ 33" using powi_neg_numeral [of 33] by simp
  have g: "of_int (900000 * 2 ^ 33 - 1) * (2::rat) powi (- 33) = 900000 - 1 / 2 ^ 33"
    by (simp add: p)
  have "round_double x \<le> 900000 - 1 / 2 ^ 33"
  proof (cases "x \<le> 900000 - 1 / 2 ^ 33")
    case le: True
    show ?thesis
    proof (cases "x = 0")
      case True
      then show ?thesis by (simp add: round_double_def)
    next
      case False
      with x0 have pos: "0 < x" by simp
      have "round_double x \<le> of_int (900000 * 2 ^ 33 - 1) * 2 powi (- 33)"
      proof (rule round_double_le [OF pos])
        show "x \<le> of_int (900000 * 2 ^ 33 - 1) * 2 powi (- 33)"
          using le by (simp only: g)
        show "(2::int) ^ 52 \<le> 900000 * 2 ^ 33 - 1" by simp
        show "(900000::int) * 2 ^ 33 - 1 < 2 ^ 53" by simp
      qed
      then show ?thesis by (simp only: g)
    qed
  next
    case False
    then have lo: "900000 - 1 / 2 ^ 33 < x" by simp
    then have pos: "0 < x" by simp
    have "binade x = 19"
    proof (rule binade_unique)
      show "2 powi 19 \<le> x" using lo by simp
      show "x < 2 powi (19 + 1)" using xmax by simp
    qed
    then have f: "round_double x = of_int (round_even (x / 2 powi (- 33))) * 2 powi (- 33)"
      by (simp add: round_double_pos [OF pos])
    have q: "x / 2 powi (- 33) = x * 8589934592" by (simp add: p)
    have "round_even (x / 2 powi (- 33)) = 900000 * 2 ^ 33 - 1"
    proof (rule round_even_down)
      have "(7730941132799999::rat) \<le> x * 8589934592" using lo by simp
      then show "of_int (900000 * 2 ^ 33 - 1) \<le> x / 2 powi (- 33)"
        by (simp add: q)
      have "x * 8589934592 < (7730941132799999::rat) + 1 / 2" using xmax by simp
      then show "x / 2 powi (- 33) < of_int (900000 * 2 ^ 33 - 1) + 1 / 2"
        by (simp add: q)
    qed
    then show ?thesis by (simp only: f g)
  qed
  then show "round_double (r * 900000) \<le> 900000 - 1 / 2 ^ 33" by (simp add: x_def)
qed

lemma sum_bound:
  assumes "0 \<le> p" and "p \<le> 900000 - 1 / 2 ^ 33"
  shows "100000 \<le> round_double (100000 + p)" and "round_double (100000 + p) \<le> 1000000 - 1 / 2 ^ 33"
proof -
  have p33: "(2::rat) powi (- 33) = 1 / 2 ^ 33" using powi_neg_numeral [of 33] by simp
  have p36: "(2::rat) powi (- 36) = 1 / 2 ^ 36" using powi_neg_numeral [of 36] by simp
  have h: "of_int (1000000 * 2 ^ 33 - 1) * (2::rat) powi (- 33) = 1000000 - 1 / 2 ^ 33"
    by (simp add: p33)
  have l: "of_int (100000 * 2 ^ 36) * (2::rat) powi (- 36) = 100000"
    by (simp add: p36)
  have "of_int (100000 * 2 ^ 36) * (2::rat) powi (- 36) \<le> round_double (100000 + p)"
  proof (rule round_double_ge)
    show "of_int (100000 * 2 ^ 36) * 2 powi (- 36) \<le> 100000 + p"
      using assms(1) by (simp only: l)
    show "(2::int) ^ 52 \<le> 100000 * 2 ^ 36" by simp
    show "(100000::int) * 2 ^ 36 < 2 ^ 53" by simp
  qed
  then show "100000 \<le> round_double (100000 + p)" by (simp only: l)
  have "round_double (100000 + p) \<le> of_int (1000000 * 2 ^ 33 - 1) * 2 powi (- 33)"
  proof (rule round_double_le)
    show "0 < 100000 + p" using assms(1) by simp
    show "100000 + p \<le> of_int (1000000 * 2 ^ 33 - 1) * 2 powi (- 33)"
      using assms(2) by (simp only: h)
    show "(2::int) ^ 52 \<le> 1000000 * 2 ^ 33 - 1" by simp
    show "(1000000::int) * 2 ^ 33 - 1 < 2 ^ 53" by simp
  qed
  then show "round_double (100000 + p) \<le> 1000000 - 1 / 2 ^ 33" by (simp only: h)
qed

lemma random_id_range:
  assumes "round_double r = r" and "0 \<le> r" and "r < 1"
  shows "100000 \<le> nat \<lfloor>round_double (100000 + round_double (r * 900000))\<rfloor>"
    and "nat \<lfloor>round_double (100000 + round_double (r * 900000))\<rfloor> \<le> 999999"
proof -
  have r: "r \<le> 1 - 1 / 2 ^ 53" using assms by (rule double_below_one)
  note s = sum_bound [OF product_bound [OF assms(2) r]]
  then have lo: "(100000::int) \<le> \<lfloor>round_double (100000 + round_double (r * 900000))\<rfloor>" by (simp add: le_floor_iff)
  have "round_double (100000 + round_double (r * 900000)) < 1000000" using s(2) by simp
  then have hi: "\<lfloor>round_double (100000 + round_double (r * 900000))\<rfloor> < (1000000::int)" by (simp add: floor_less_iff)
  from lo show "100000 \<le> nat \<lfloor>round_double (100000 + round_double (r * 900000))\<rfloor>" by linarith
  from lo hi show "nat \<lfloor>round_double (100000 + round_double (r * 900000))\<rfloor> \<le> 999999" by linarith
qed

section \<open>Booking identifiers\<close>

lemma decimal_length: "10 ^ k \<le> n \<Longrightarrow> n < 10 ^ Suc k \<Longrightarrow> length (decimal n) = Suc k"
proof (induction k arbitrary: n)
  case 0
  then show ?case by (subst decimal.simps) simp
next
  case (Suc k)
  have "(10::nat) \<le> 10 ^ Suc k" by simp
  with Suc.prems have big: "\<not> n < 10" by linarith
  have lo: "10 ^ k \<le> n div 10"
    using Suc.prems by (simp add: less_eq_div_iff_mult_less_eq mult.commute)
  have hi: "n div 10 < 10 ^ Suc k"
    using Suc.prems by (simp add: div_less_iff_less_mult mult.commute)
  have "length (decimal (n div 10)) = Suc k" using Suc.IH [OF lo hi] .
  with big show ?case by (subst decimal.simps) simp
qed

lemma decimal_digits:
  "\<exists>ds. decimal n = map (\<lambda>d. of_nat (48 + d)) ds \<and> (\<forall>d\<in>set ds. d < 10) \<and> digits_value ds = n"
proof (induction n rule: decimal.induct)
  case (1 n)
  show ?case
  proof (cases "n < 10")
    case True
    then have "decimal n = map (\<lambda>d. of_nat (48 + d)) [n]"
      by (subst decimal.simps) simp
    moreover have "(\<forall>d\<in>set [n]. d < 10) \<and> digits_value [n] = n"
      using True by (simp add: digits_value_def)
    ultimately show ?thesis by blast
  next
    case False
    from 1 [OF False] obtain ds where ds: "decimal (n div 10) = map (\<lambda>d. of_nat (48 + d)) ds"
      "\<forall>d\<in>set ds. d < 10" "digits_value ds = n div 10" by blast
    have "decimal n = map (\<lambda>d. of_nat (48 + d)) (ds @ [n mod 10])"
      using False ds(1) by (subst decimal.simps) simp
    moreover have "\<forall>d\<in>set (ds @ [n mod 10]). d < 10" using ds(2) by auto
    moreover have "digits_value (ds @ [n mod 10]) = n"
      using ds(3) by (simp add: digits_value_def)
    ultimately show ?thesis by blast
  qed
qed

lemma new_bookingId_digits:
  assumes "round_double r = r" "0 \<le> r" "r < 1"
  shows "\<exists>ds. length ds = 6 \<and> (\<forall>d\<in>set ds. d < 10) \<and>
            100000 \<le> digits_value ds \<and> digits_value ds \<le> 999999 \<and>
            new_bookingId r = ascii ''TR-'' @ map (\<lambda>d. of_nat (48 + d)) ds"
proof -
  define n where "n = nat \<lfloor>round_double (100000 + round_double (r * 900000))\<rfloor>"
  have n: "100000 \<le> n" "n \<le> 999999"
    using random_id_range [OF assms] by (simp_all add: n_def)
  obtain ds where ds: "decimal n = map (\<lambda>d. of_nat (48 + d)) ds" "\<forall>d\<in>set ds. d < 10"
      "digits_value ds = n"
    using decimal_digits by blast
  have "length (decimal n) = Suc 5" using n by (intro decimal_length) simp_all
  then have "length ds = 6" by (simp add: ds(1))
  moreover have "new_bookingId r = ascii ''TR-'' @ map (\<lambda>d. of_nat (48 + d)) ds"
    by (simp only: new_bookingId_def n_def [symmetric] ds(1))
  ultimately show ?thesis using ds(2,3) n by blast
qed

lemma round_double_half: "round_double (1 / 2) = 1 / 2"
  by code_simp

lemma new_bookingId_half: "new_bookingId (1 / 2) = ascii ''TR-550000''"
proof -
  have "\<lfloor>round_double (100000 + round_double (1 / 2 * 900000))\<rfloor> = 550000"
    by code_simp
  then show ?thesis
    by (simp only: new_bookingId_def) (simp add: decimal.simps ascii_def)
qed

lemma post_bookings_bookingId:
  assumes run: "replied 201 (fst (post_bookings e now r newId bookingData bs))"
  shows "getField (body (fst (post_bookings e now r newId bookingData bs))) ''bookingId''
           = JStr (new_bookingId r)"
    and "snd (post_bookings e now r newId bookingData bs) \<noteq> []"
    and "get (last (snd (post_bookings e now r newId bookingData bs))) ''bookingId''
           = JStr (new_bookingId r)"
proof -
  from run obtain i nb shown where
    ins: "insertOne newId
       (put ''paymentDate'' (JDate now)
          (put ''updatedAt'' (JDate now)
             (put ''createdAt'' (JDate now)
                (put ''bookingId'' (JStr (new_bookingId r)) bookingData)))) bs
       = Inr (i, nb, snd (post_bookings e now r newId bookingData bs))"
    and b: "body (fst (post_bookings e now r newId bookingData bs)) =
       JObj [(''message'', JStr (ascii ''Booking confirmed successfully'')),
             (''bookingId'', get nb ''bookingId''),
             (''data'', JObj (json_doc (put ''paymentInfo'' shown (put ''_id'' i nb))))]"
    by (rule post_bookings_201)
  have nb: "get nb ''bookingId'' = JStr (new_bookingId r)"
    using get_insertOne [OF ins, of "''bookingId''"] by (simp add: get_put)
  show "getField (body (fst (post_bookings e now r newId bookingData bs))) ''bookingId''
           = JStr (new_bookingId r)"
    by (simp add: b get_Cons nb)
  from insertOne_Inr [OF ins]
  have s: "snd (post_bookings e now r newId bookingData bs) = bs @ [bson_doc nb]" by simp
  show "snd (post_bookings e now r newId bookingData bs) \<noteq> []" by (simp add: s)
  show "get (last (snd (post_bookings e now r newId bookingData bs))) ''bookingId''
           = JStr (new_bookingId r)"
    by (simp add: s get_bson_doc nb)
qed

section \<open>Cancellation\<close>







lemma accepted_id: "list_all (accepted e) [Eq ''_id'' (JOid oid)]"
  by simp


























section \<open>Listings\<close>

lemma length_insert_desc: "length (insert_desc d ds) = Suc (length ds)"
  by (induction ds) simp_all

lemma length_sort_desc: "length (sort_desc ds) = length ds"
  by (induction ds) (simp_all add: sort_desc_def length_insert_desc)

lemma set_insert_desc: "set (insert_desc d ds) = insert d (set ds)"
  by (induction ds) auto

lemma set_sort_desc: "set (sort_desc ds) = set ds"
  by (induction ds) (simp_all add: sort_desc_def set_insert_desc)

lemma not_after_total: "\<not> not_after a b \<Longrightarrow> not_after b a"
  by (cases a; cases b) auto

lemma not_after_trans: "not_after a b \<Longrightarrow> not_after b c \<Longrightarrow> not_after a c"
  by (cases a; cases b; cases c) auto

lemma sorted_insert_desc:
  "sorted_wrt (\<lambda>a b. not_after (createdAt b) (createdAt a)) xs \<Longrightarrow>
     sorted_wrt (\<lambda>a b. not_after (createdAt b) (createdAt a)) (insert_desc d xs)"
proof (induction xs)
  case Nil
  then show ?case by simp
next
  case (Cons x xs)
  show ?case
  proof (cases "not_after (createdAt x) (createdAt d)")
    case True
    have "\<forall>y\<in>set xs. not_after (createdAt y) (createdAt d)"
      using Cons.prems True by (auto intro: not_after_trans)
    with True Cons.prems show ?thesis by simp
  next
    case False
    then have "not_after (createdAt d) (createdAt x)" by (rule not_after_total)
    with False Cons show ?thesis by (auto simp: set_insert_desc)
  qed
qed

lemma sorted_sort_desc:
  "sorted_wrt (\<lambda>a b. not_after (createdAt b) (createdAt a)) (sort_desc ds)"
  by (induction ds) (simp_all add: sort_desc_def sorted_insert_desc)

lemma admin_bookings_result:
  assumes "admin_query e reqQuery = Inr query" and "list_all (accepted e) query"
  shows "\<exists>ds. admin_bookings e reqQuery bs =
            Reply 200 (JObj [(''count'', JNum (of_nat (length ds))),
                             (''data'', JArr (map JObj ds))]) \<and>
          set ds = {d \<in> set bs. matches e query d} \<and>
          sorted_wrt (\<lambda>a b. not_after (createdAt b) (createdAt a)) ds"
  by (rule exI [of _ "sort_desc (filter (matches e query) bs)"])
     (auto simp: admin_bookings_def assms find_all_def Let_def set_sort_desc sorted_sort_desc)

lemma display_no_key:
  assumes "display e b = Inr d" and "k \<notin> fst ` set b" and "k \<noteq> ''startDate''"
      and "k \<noteq> ''endDate''"
  shows "k \<notin> fst ` set d"
proof -
  from assms(1) obtain x y where "d = put ''endDate'' y (put ''startDate'' x b)"
    by (auto simp: display_def split: sum.splits)
  with assms(2-4) show ?thesis by (simp add: keys_put)
qed

lemma display_all_length: "display_all e bs = Inr ds \<Longrightarrow> length ds = length bs"
proof (induction bs arbitrary: ds)
  case Nil
  then show ?case by simp
next
  case (Cons b bs)
  from Cons.prems obtain d ds' where "display_all e bs = Inr ds'" and "ds = d # ds'"
    by (auto split: sum.splits)
  with Cons.IH show ?case by simp
qed

lemma display_all_no_key:
  assumes "display_all e bs = Inr ds" and "\<forall>b\<in>set bs. k \<notin> fst ` set b"
      and "k \<noteq> ''startDate''" and "k \<noteq> ''endDate''"
  shows "\<forall>d\<in>set ds. k \<notin> fst ` set d"
  using assms(1,2)
proof (induction bs arbitrary: ds)
  case Nil
  then show ?case by simp
next
  case (Cons b bs)
  from Cons.prems(1) obtain d ds' where d: "display e b = Inr d"
    and ds': "display_all e bs = Inr ds'" and ds: "ds = d # ds'"
    by (auto split: sum.splits)
  have "k \<notin> fst ` set b" using Cons.prems(2) by simp
  then have 1: "k \<notin> fst ` set d" using display_no_key [OF d] assms(3,4) by blast
  have "\<forall>b\<in>set bs. k \<notin> fst ` set b" using Cons.prems(2) by simp
  then have 2: "\<forall>d\<in>set ds'. k \<notin> fst ` set d" by (rule Cons.IH [OF ds'])
  from 1 2 show ?case by (simp add: ds)
qed

lemma project_out_no_key: "k \<notin> fst ` set (project_out k d)"
  by (induction d) (simp_all add: project_out_def)

lemma listed_data: "listed (Reply st (JObj [(''count'', n), (''data'', JArr (map JObj ds))])) = ds"
  by (induction ds) (simp_all add: listed_def get_Cons)

lemma listed_err: "listed (Reply st (err m)) = []"
  by (simp add: listed_def err_def get_def)

lemma get_bookings_cases:
  "(\<not> replied 200 (get_bookings e reqQuery bs) \<and> listed (get_bookings e reqQuery bs) = []) \<or>
   (\<exists>found shown.
      truthy (get reqQuery ''email'') \<and>
      find_all e [Eq ''email'' (get reqQuery ''email'')] bs = Inr found \<and>
      display_all e (map (project_out ''paymentInfo'') (sort_desc found)) = Inr shown \<and>
      get_bookings e reqQuery bs =
        Reply 200 (JObj [(''count'', JNum (of_nat (length found))),
                         (''data'', JArr (map JObj shown))]))"
proof (cases "truthy (get reqQuery ''email'')")
  case False
  then show ?thesis by (simp add: get_bookings_def Let_def replied_def listed_err)
next
  case True
  then have em: "bson (get reqQuery ''email'') = get reqQuery ''email''"
    by (auto simp: bson_def)
  show ?thesis
  proof (cases "find_all e [Eq ''email'' (get reqQuery ''email'')] bs")
    case (Inl x)
    with True show ?thesis by (simp add: get_bookings_def Let_def em replied_def listed_err)
  next
    case (Inr found)
    show ?thesis
    proof (cases "display_all e (map (project_out ''paymentInfo'') (sort_desc found))")
      case (Inl x)
      with True Inr show ?thesis
        by (simp add: get_bookings_def Let_def em replied_def listed_err)
    next
      case inr: (Inr shown)
      with True Inr show ?thesis
        by (simp add: get_bookings_def Let_def em length_sort_desc)
    qed
  qed
qed

section \<open>Users\<close>

lemma accepted_literal: "\<not> is_operator q \<Longrightarrow> list_all (accepted e) [Eq k q]"
  by simp


lemma findOne_email:
  assumes "u \<in> set Users" and "get u ''email'' = JStr em"
  shows "\<exists>x. findOne e [Eq ''email'' (bson (JStr em))] Users = Inr (Some x)"
proof -
  have "matches e [Eq ''email'' (bson (JStr em))] u"
    using assms(2) by (simp add: matches_def eq_match_def bson_def)
  with assms(1) have "find (matches e [Eq ''email'' (bson (JStr em))]) Users \<noteq> None"
    by (auto simp: find_None_iff)
  then show ?thesis by (auto simp: findOne_def bson_def)
qed

section \<open>The specified properties\<close>

text \<open>
  C10. For every card-number string of at most four code units, \<open>maskCardNumber\<close> returns
  the mask prefix followed by the whole input; so when a booking is created with such a
  (non-empty) card number, the card number in the response is the prefix followed by the
  whole card number.
\<close>

theorem short_card_revealed:
  "length s \<le> 4 \<Longrightarrow>
     maskCardNumber e (JStr s) = Inr (mask_prefix @ s) \<and>
     (s \<noteq> [] \<and> get bookingData ''paymentInfo'' = JObj pinfo \<and>
      get pinfo ''cardNumber'' = JStr s \<and>
      replied 201 (fst (post_bookings e now r newId bookingData bs)) \<longrightarrow>
        getField (getField (getField (body (fst (post_bookings e now r newId bookingData bs)))
                              ''data'') ''paymentInfo'') ''cardNumber''
          = JStr (mask_prefix @ s))"
  using post_bookings_card [of bookingData pinfo s e now r newId bs]
  by (auto simp: slice_last4_short get_put)

theorem short_card_revealed_witness:
  "length (ascii ''123'') \<le> 4 \<and>
   maskCardNumber sample_env (JStr (ascii ''123'')) = Inr (mask_prefix @ ascii ''123'') \<and>
   replied 201 (fst (post_bookings sample_env 0 0 1
      [(''paymentInfo'', JObj [(''cardNumber'', JStr (ascii ''123''))])] [])) \<and>
   getField (getField (getField (body (fst (post_bookings sample_env 0 0 1
      [(''paymentInfo'', JObj [(''cardNumber'', JStr (ascii ''123''))])] [])))
         ''data'') ''paymentInfo'') ''cardNumber'' = JStr (mask_prefix @ ascii ''123'')"
proof -
  have len: "length (ascii ''123'') \<le> 4" by (simp add: ascii_def)
  have ok: "replied 201 (fst (post_bookings sample_env 0 0 1
      [(''paymentInfo'', JObj [(''cardNumber'', JStr (ascii ''123''))])] []))"
    by (simp add: post_bookings_def insertOne_def get_def Let_def sample_env_def replied_def)
  show ?thesis
    using short_card_revealed [OF len, of sample_env
        "[(''paymentInfo'', JObj [(''cardNumber'', JStr (ascii ''123''))])]"
        "[(''cardNumber'', JStr (ascii ''123''))]" 0 0 1 "[]"] len ok
    by (simp add: get_def ascii_def)
qed

text \<open>
  C8. Whatever double \<open>Math.random()\<close> returns in \<open>[0, 1)\<close>, the generated booking identifier is
  \<open>TR-\<close> followed by exactly six decimal digits that denote a number from 100000 to
  999999; a created booking carries this identifier in the response and in the store.
\<close>

theorem bookingId_six_digits:
  assumes "round_double r = r" and "0 \<le> r" and "r < 1"
  shows "\<exists>ds. length ds = 6 \<and> (\<forall>d\<in>set ds. d < 10) \<and>
           100000 \<le> digits_value ds \<and> digits_value ds \<le> 999999 \<and>
           new_bookingId r = ascii ''TR-'' @ map (\<lambda>d. of_nat (48 + d)) ds \<and>
           (replied 201 (fst (post_bookings e now r newId bookingData bs)) \<longrightarrow>
              getField (body (fst (post_bookings e now r newId bookingData bs))) ''bookingId''
                = JStr (new_bookingId r) \<and>
              get (last (snd (post_bookings e now r newId bookingData bs))) ''bookingId''
                = JStr (new_bookingId r))"
  using new_bookingId_digits [OF assms] post_bookings_bookingId [of e now r newId bookingData bs]
  by blast

theorem bookingId_six_digits_witness:
  "round_double (1 / 2) = 1 / 2 \<and> (0::rat) \<le> 1 / 2 \<and> (1 / 2 :: rat) < 1 \<and>
   new_bookingId (1 / 2) = ascii ''TR-550000'' \<and>
   replied 201 (fst (post_bookings sample_env 0 (1 / 2) 1 [(''resortId'', JStr (ascii ''r1''))] [])) \<and>
   getField (body (fst (post_bookings sample_env 0 (1 / 2) 1 [(''resortId'', JStr (ascii ''r1''))] [])))
      ''bookingId'' = JStr (ascii ''TR-550000'') \<and>
   get (last (snd (post_bookings sample_env 0 (1 / 2) 1 [(''resortId'', JStr (ascii ''r1''))] [])))
      ''bookingId'' = JStr (ascii ''TR-550000'')"
proof -
  have h0: "round_double (1 / 2) = 1 / 2" by (rule round_double_half)
  have h1: "(0::rat) \<le> 1 / 2" and h2: "(1 / 2 :: rat) < 1" by simp_all
  have id: "new_bookingId (1 / 2) = ascii ''TR-550000''" by (rule new_bookingId_half)
  have ok: "replied 201 (fst (post_bookings sample_env 0 (1 / 2) 1
      [(''resortId'', JStr (ascii ''r1''))] []))"
    by (simp add: post_bookings_def insertOne_def get_def Let_def sample_env_def replied_def)
  show ?thesis
    using bookingId_six_digits [OF h0 h1 h2, of sample_env 0 1
        "[(''resortId'', JStr (ascii ''r1''))]" "[]"] h0 h1 h2 id ok
    by auto
qed

text \<open>
  C3, as the claim states it, fails: an empty card number is falsy, so the payment info is
  returned as it came, without the mask; and a card number sent as a JSON number has no
  \<open>slice\<close>, so the request ends in a 500 after the booking was stored.
\<close>

theorem masked_card_counterexample:
  "replied 201 (fst (post_bookings sample_env 0 0 1
      [(''paymentInfo'', JObj [(''cardNumber'', JStr [])])] [])) \<and>
   getField (getField (getField (body (fst (post_bookings sample_env 0 0 1
      [(''paymentInfo'', JObj [(''cardNumber'', JStr [])])] []))) ''data'') ''paymentInfo'')
      ''cardNumber'' \<noteq> JStr (mask_prefix @ drop (length ([] :: jstring) - 4) []) \<and>
   replied 500 (fst (post_bookings sample_env 0 0 1
      [(''paymentInfo'', JObj [(''cardNumber'', JNum 4111111111111234)])] [])) \<and>
   length (snd (post_bookings sample_env 0 0 1
      [(''paymentInfo'', JObj [(''cardNumber'', JNum 4111111111111234)])] [])) = 1"
  by (simp add: post_bookings_def insertOne_def get_def Let_def sample_env_def replied_def
       json_doc_def mask_prefix_def)

text \<open>
  C3, amended. For every booking creation that is answered with 201 and whose payload holds
  payment info (an object): when its card number is a non-empty string, the card number in
  the returned document is the mask prefix followed by the last four code units of the
  input (the whole input when it is shorter), and every other payment-info field is
  returned unchanged; when its card number is falsy (absent, \<open>null\<close>, \<open>false\<close>, 0 or the
  empty string), the payment info is returned as it came, unmasked.
\<close>

theorem masked_card_in_response:
  assumes "get bookingData ''paymentInfo'' = JObj pinfo"
      and "replied 201 (fst (post_bookings e now r newId bookingData bs))"
  shows "(\<forall>s. get pinfo ''cardNumber'' = JStr s \<and> s \<noteq> [] \<longrightarrow>
            getField (getField (getField (body (fst (post_bookings e now r newId bookingData bs)))
                       ''data'') ''paymentInfo'') ''cardNumber''
              = JStr (mask_prefix @ drop (length s - 4) s) \<and>
            (\<forall>k. k \<noteq> ''cardNumber'' \<longrightarrow>
               getField (getField (getField
                   (body (fst (post_bookings e now r newId bookingData bs)))
                       ''data'') ''paymentInfo'') k = get pinfo k)) \<and>
         (\<not> truthy (get pinfo ''cardNumber'') \<longrightarrow>
            getField (getField (body (fst (post_bookings e now r newId bookingData bs)))
                       ''data'') ''paymentInfo'' = JObj pinfo)"
  using post_bookings_card [OF assms(1) _ _ assms(2)] post_bookings_falsy_card [OF assms]
  by (simp add: get_put)

theorem masked_card_in_response_witness:
  "get [(''paymentInfo'', JObj [(''cardNumber'', JStr (ascii ''4111111111111234'')),
                                (''holder'', JStr (ascii ''A B''))])] ''paymentInfo''
     = JObj [(''cardNumber'', JStr (ascii ''4111111111111234'')), (''holder'', JStr (ascii ''A B''))] \<and>
   replied 201 (fst (post_bookings sample_env 0 0 1
      [(''paymentInfo'', JObj [(''cardNumber'', JStr (ascii ''4111111111111234'')),
                                (''holder'', JStr (ascii ''A B''))])] [])) \<and>
   getField (getField (getField (body (fst (post_bookings sample_env 0 0 1
      [(''paymentInfo'', JObj [(''cardNumber'', JStr (ascii ''4111111111111234'')),
                                (''holder'', JStr (ascii ''A B''))])] []))) ''data'') ''paymentInfo'')
      ''cardNumber'' = JStr (mask_prefix @ ascii ''1234'') \<and>
   getField (getField (getField (body (fst (post_bookings sample_env 0 0 1
      [(''paymentInfo'', JObj [(''cardNumber'', JStr (ascii ''4111111111111234'')),
                                (''holder'', JStr (ascii ''A B''))])] []))) ''data'') ''paymentInfo'')
      ''holder'' = JStr (ascii ''A B'') \<and>
   get [(''paymentInfo'', JObj [(''cardNumber'', JNum 0)])] ''paymentInfo''
     = JObj [(''cardNumber'', JNum 0)] \<and>
   replied 201 (fst (post_bookings sample_env 0 0 1
      [(''paymentInfo'', JObj [(''cardNumber'', JNum 0)])] [])) \<and>
   getField (getField (body (fst (post_bookings sample_env 0 0 1
      [(''paymentInfo'', JObj [(''cardNumber'', JNum 0)])] []))) ''data'') ''paymentInfo''
     = JObj [(''cardNumber'', JNum 0)]"
proof -
  let ?pinfo = "[(''cardNumber'', JStr (ascii ''4111111111111234'')), (''holder'', JStr (ascii ''A B''))]"
  let ?data = "[(''paymentInfo'', JObj ?pinfo)]"
  have a1: "get ?data ''paymentInfo'' = JObj ?pinfo" by (simp add: get_def)
  have a2: "get ?pinfo ''cardNumber'' = JStr (ascii ''4111111111111234'')" by (simp add: get_def)
  have a3: "ascii ''4111111111111234'' \<noteq> []" by (simp add: ascii_def)
  have a4: "replied 201 (fst (post_bookings sample_env 0 0 1 ?data []))"
    by (simp add: post_bookings_def insertOne_def get_def Let_def sample_env_def replied_def)
  have h: "''holder'' \<noteq> ''cardNumber''" by simp
  let ?zero = "[(''paymentInfo'', JObj [(''cardNumber'', JNum 0)])]"
  have b1: "get ?zero ''paymentInfo'' = JObj [(''cardNumber'', JNum 0)]" by (simp add: get_def)
  have b2: "replied 201 (fst (post_bookings sample_env 0 0 1 ?zero []))"
    by (simp add: post_bookings_def insertOne_def get_def Let_def sample_env_def replied_def)
  have b3: "\<not> truthy (get [(''cardNumber'', JNum 0)] ''cardNumber'')" by (simp add: get_def)
  show ?thesis
    using masked_card_in_response [OF a1 a4] masked_card_in_response [OF b1 b2]
      a1 a2 a3 a4 h b1 b2 b3
    by (simp add: get_def ascii_def)
qed









text \<open>
  C4. Whatever the request and whatever the stored bookings hold, no document in the
  result of an owner listing (\<open>GET /bookings\<close>) has a \<open>paymentInfo\<close> field; and a listing
  that is answered with 200 returns one document for each stored booking that matches the
  email.
\<close>

theorem listing_without_paymentInfo:
  "(\<forall>d\<in>set (listed (get_bookings e reqQuery bs)). ''paymentInfo'' \<notin> fst ` set d) \<and>
   (replied 200 (get_bookings e reqQuery bs) \<longrightarrow>
      truthy (get reqQuery ''email'') \<and>
      (\<exists>found. find_all e [Eq ''email'' (get reqQuery ''email'')] bs = Inr found \<and>
               length (listed (get_bookings e reqQuery bs)) = length found))"
proof -
  from get_bookings_cases [of e reqQuery bs]
  consider "\<not> replied 200 (get_bookings e reqQuery bs)"
      "listed (get_bookings e reqQuery bs) = []"
    | found shown where "truthy (get reqQuery ''email'')"
      "find_all e [Eq ''email'' (get reqQuery ''email'')] bs = Inr found"
      "display_all e (map (project_out ''paymentInfo'') (sort_desc found)) = Inr shown"
      "get_bookings e reqQuery bs =
         Reply 200 (JObj [(''count'', JNum (of_nat (length found))),
                          (''data'', JArr (map JObj shown))])"
    by blast
  then show ?thesis
  proof cases
    case 1
    then show ?thesis by simp
  next
    case 2
    have l: "listed (get_bookings e reqQuery bs) = shown" by (simp add: 2(4) listed_data)
    have len: "length shown = length found"
      using display_all_length [OF 2(3)] by (simp add: length_sort_desc)
    have "\<forall>b\<in>set (map (project_out ''paymentInfo'') (sort_desc found)).
            ''paymentInfo'' \<notin> fst ` set b"
      by (simp add: project_out_no_key)
    then have "\<forall>d\<in>set shown. ''paymentInfo'' \<notin> fst ` set d"
      by (rule display_all_no_key [OF 2(3)]) simp_all
    with l len 2(1,2) show ?thesis by (simp add: replied_def)
  qed
qed

theorem listing_without_paymentInfo_witness:
  "replied 200 (get_bookings sample_env [(''email'', JStr (ascii ''a@b.c''))]
                  [sample_booking, cancelled_booking]) \<and>
   get sample_booking ''paymentInfo'' = JObj [(''cardNumber'', JStr (ascii ''4111111111111234''))] \<and>
   listed (get_bookings sample_env [(''email'', JStr (ascii ''a@b.c''))]
             [sample_booking, cancelled_booking])
     = [[(''_id'', JOid 0x665f1c2ab3d4e5f6a7b8c9d0),
         (''email'', JStr (ascii ''a@b.c'')),
         (''startDate'', JStr []),
         (''endDate'', JStr []),
         (''bookingId'', JStr (ascii ''TR-550000'')),
         (''createdAt'', JDate 1748000000000)],
        [(''_id'', JOid 0x665f1c2ab3d4e5f6a7b8c9d1),
         (''email'', JStr (ascii ''a@b.c'')),
         (''startDate'', JStr []),
         (''status'', JStr (ascii ''cancelled'')),
         (''cancellation'',
          JObj [(''date'', JDate 1748736000000),
                (''reason'', JStr (ascii ''User requested'')),
                (''refundEligible'', JBool True)]),
         (''createdAt'', JDate 1747000000000),
         (''endDate'', JStr [])]] \<and>
   length (listed (get_bookings sample_env [(''email'', JObj [(''$ne'', JStr (ascii ''x''))])]
                     [sample_booking, cancelled_booking])) = 2 \<and>
   get_bookings sample_env [(''email'', JStr (ascii ''a@b.c''))] [odd_booking]
     = Reply 500 (err ''Internal server error'')"
proof -
  have v: "get_bookings sample_env [(''email'', JStr (ascii ''a@b.c''))]
             [sample_booking, cancelled_booking]
     = Reply 200
         (JObj [(''count'', JNum 2),
                (''data'',
                 JArr [JObj [(''_id'', JOid 0x665f1c2ab3d4e5f6a7b8c9d0),
                             (''email'', JStr (ascii ''a@b.c'')),
                             (''startDate'', JStr []),
                             (''endDate'', JStr []),
                             (''bookingId'', JStr (ascii ''TR-550000'')),
                             (''createdAt'', JDate 1748000000000)],
                       JObj [(''_id'', JOid 0x665f1c2ab3d4e5f6a7b8c9d1),
                             (''email'', JStr (ascii ''a@b.c'')),
                             (''startDate'', JStr []),
                             (''status'', JStr (ascii ''cancelled'')),
                             (''cancellation'',
                              JObj [(''date'', JDate 1748736000000),
                                    (''reason'', JStr (ascii ''User requested'')),
                                    (''refundEligible'', JBool True)]),
                             (''createdAt'', JDate 1747000000000),
                             (''endDate'', JStr [])]])])"
    by (simp add: get_bookings_def get_def Let_def bson_def find_all_def matches_def eq_match_def
          sort_desc_def createdAt_def project_out_def display_def formatDisplayDate_def
          sample_env_def sample_parse_def sample_booking_def cancelled_booking_def ascii_def)
  have p: "get sample_booking ''paymentInfo''
             = JObj [(''cardNumber'', JStr (ascii ''4111111111111234''))]"
    by (simp add: sample_booking_def get_def)
  have n: "length (listed (get_bookings sample_env
                     [(''email'', JObj [(''$ne'', JStr (ascii ''x''))])]
                     [sample_booking, cancelled_booking])) = 2"
    by (simp add: get_bookings_def get_def Let_def bson_def find_all_def matches_def eq_match_def
          sort_desc_def createdAt_def project_out_def display_def formatDisplayDate_def
          sample_env_def sample_parse_def sample_operator_def sample_booking_def
          cancelled_booking_def listed_def ascii_def)
  have o: "get_bookings sample_env [(''email'', JStr (ascii ''a@b.c''))] [odd_booking]
             = Reply 500 (err ''Internal server error'')"
    by (simp add: get_bookings_def get_def Let_def bson_def find_all_def matches_def eq_match_def
          sort_desc_def createdAt_def project_out_def display_def formatDisplayDate_def
          sample_env_def sample_toPrimitive_def odd_booking_def ascii_def)
  show ?thesis
    using listing_without_paymentInfo [of sample_env "[(''email'', JStr (ascii ''a@b.c''))]"
        "[sample_booking, cancelled_booking]"] v p n o
    by (simp add: replied_def listed_def get_def)
qed

text \<open>
  C5, as the claim states it, fails: both servers check that name and email are present
  before they look for the email, so a request without a name is answered with 400, not
  409, also when its email is that of a stored user.
\<close>

theorem duplicate_email_counterexample:
  "get [(''email'', JStr (ascii ''a@b.c''))] ''email'' = get sample_user ''email'' \<and>
   post_users sample_env 1749000000000 1 [(''email'', JStr (ascii ''a@b.c''))] [sample_user]
     = (Reply 400 (err ''Name and email are required''), [sample_user]) \<and>
   \<not> replied 409 (fst (post_users sample_env 1749000000000 1 [(''email'', JStr (ascii ''a@b.c''))]
                        [sample_user])) \<and>
   \<not> replied 409 (fst (post_users_v1 sample_env 1 [(''email'', JStr (ascii ''a@b.c''))]
                        [sample_user]))"
  by (simp add: post_users_def post_users_v1_def get_def Let_def sample_user_def replied_def
        ascii_def)

text \<open>
  C5, amended. For every user-creation request (on either server) whose email is the
  email of a stored user, the users collection stays as it is; the answer is the conflict
  409 when the request carries a name and the email is not empty, and 400 otherwise.
\<close>

theorem duplicate_email_conflict:
  assumes "get reqBody ''email'' = JStr em" and "u \<in> set Users" and "get u ''email'' = JStr em"
  shows "snd (post_users e now newId reqBody Users) = Users \<and>
         snd (post_users_v1 e newId reqBody Users) = Users \<and>
         (if truthy (get reqBody ''name'') \<and> em \<noteq> []
          then replied 409 (fst (post_users e now newId reqBody Users)) \<and>
               replied 409 (fst (post_users_v1 e newId reqBody Users))
          else replied 400 (fst (post_users e now newId reqBody Users)) \<and>
               replied 400 (fst (post_users_v1 e newId reqBody Users)))"
proof -
  from findOne_email [OF assms(2,3)] obtain x
    where "findOne e [Eq ''email'' (bson (JStr em))] Users = Inr (Some x)" by blast
  then show ?thesis
    by (simp add: post_users_def post_users_v1_def Let_def assms(1) replied_def)
qed

theorem duplicate_email_conflict_witness:
  "get [(''name'', JStr (ascii ''Bob'')), (''email'', JStr (ascii ''a@b.c''))] ''email''
     = JStr (ascii ''a@b.c'') \<and>
   sample_user \<in> set [sample_user] \<and>
   get sample_user ''email'' = JStr (ascii ''a@b.c'') \<and>
   snd (post_users sample_env 1749000000000 1
          [(''name'', JStr (ascii ''Bob'')), (''email'', JStr (ascii ''a@b.c''))] [sample_user])
     = [sample_user] \<and>
   replied 409 (fst (post_users sample_env 1749000000000 1
          [(''name'', JStr (ascii ''Bob'')), (''email'', JStr (ascii ''a@b.c''))] [sample_user])) \<and>
   replied 409 (fst (post_users_v1 sample_env 1
          [(''name'', JStr (ascii ''Bob'')), (''email'', JStr (ascii ''a@b.c''))] [sample_user]))"
proof -
  have a1: "get [(''name'', JStr (ascii ''Bob'')), (''email'', JStr (ascii ''a@b.c''))] ''email''
              = JStr (ascii ''a@b.c'')" by (simp add: get_def)
  have a2: "sample_user \<in> set [sample_user]" by simp
  have a3: "get sample_user ''email'' = JStr (ascii ''a@b.c'')"
    by (simp add: sample_user_def get_def)
  have n: "truthy (get [(''name'', JStr (ascii ''Bob'')), (''email'', JStr (ascii ''a@b.c''))]
                     ''name'') \<and> ascii ''a@b.c'' \<noteq> []"
    by (simp add: get_def ascii_def)
  show ?thesis
    using duplicate_email_conflict [OF a1 a2 a3, of sample_env 1749000000000 1] a1 a3 n
    by simp
qed

text \<open>
  C6. The booking that \<open>POST /bookings\<close> stores for a JSON payload keeps its start and
  end dates as the strings they came as. The administrative query compares the bounds of
  a date range as dates, which no string matches: the booking created below, from 10 to
  12 June 2025, is left out of the range 1 to 30 June 2025, while the query by resort
  returns it.
\<close>

theorem admin_date_range_misses_created_booking:
  "snd (post_bookings sample_env 1748000000000 (1 / 2) 7
          [(''email'', JStr (ascii ''a@b.c'')), (''resortId'', JStr (ascii ''r1'')),
           (''startDate'', JStr (ascii ''2025-06-10'')),
           (''endDate'', JStr (ascii ''2025-06-12''))] []) = [created_booking] \<and>
   new_Date sample_env (JStr (ascii ''2025-06-01'')) = Inr (Some 1748736000000) \<and>
   new_Date sample_env (get created_booking ''startDate'') = Inr (Some 1749513600000) \<and>
   new_Date sample_env (get created_booking ''endDate'') = Inr (Some 1749686400000) \<and>
   new_Date sample_env (JStr (ascii ''2025-06-30'')) = Inr (Some 1751241600000) \<and>
   admin_bookings sample_env
       [(''startDate'', JStr (ascii ''2025-06-01'')), (''endDate'', JStr (ascii ''2025-06-30''))]
       [created_booking]
     = Reply 200 (JObj [(''count'', JNum 0), (''data'', JArr [])]) \<and>
   admin_bookings sample_env [(''resortId'', JStr (ascii ''r1''))] [created_booking]
     = Reply 200 (JObj [(''count'', JNum 1), (''data'', JArr [JObj created_booking])])"
proof -
  have 1: "snd (post_bookings sample_env 1748000000000 (1 / 2) 7
          [(''email'', JStr (ascii ''a@b.c'')), (''resortId'', JStr (ascii ''r1'')),
           (''startDate'', JStr (ascii ''2025-06-10'')),
           (''endDate'', JStr (ascii ''2025-06-12''))] []) = [created_booking]"
    by (simp add: post_bookings_def insertOne_def get_def Let_def new_bookingId_half
          bson_doc_def bson_def created_booking_def)
  have 2: "new_Date sample_env (JStr (ascii ''2025-06-01'')) = Inr (Some 1748736000000)"
    "new_Date sample_env (get created_booking ''startDate'') = Inr (Some 1749513600000)"
    "new_Date sample_env (get created_booking ''endDate'') = Inr (Some 1749686400000)"
    "new_Date sample_env (JStr (ascii ''2025-06-30'')) = Inr (Some 1751241600000)"
    by (simp_all add: sample_env_def sample_parse_def created_booking_def get_def TimeClip_def
          ascii_def)
  have 3: "admin_bookings sample_env
       [(''startDate'', JStr (ascii ''2025-06-01'')), (''endDate'', JStr (ascii ''2025-06-30''))]
       [created_booking]
     = Reply 200 (JObj [(''count'', JNum 0), (''data'', JArr [])])"
    by (simp add: admin_bookings_def admin_query_def find_all_def matches_def date_match_def
          sort_desc_def bson_date_def get_def Let_def sample_env_def sample_parse_def
          created_booking_def TimeClip_def ascii_def)
  have 4: "admin_bookings sample_env [(''resortId'', JStr (ascii ''r1''))] [created_booking]
     = Reply 200 (JObj [(''count'', JNum 1), (''data'', JArr [JObj created_booking])])"
    by (simp add: admin_bookings_def admin_query_def find_all_def matches_def eq_match_def
          sort_desc_def get_def Let_def created_booking_def ascii_def)
  from 1 2 3 4 show ?thesis by simp
qed




end
